theory Spec2Isabelle
  imports Complex_Main "HOL-Library.Word"
begin

section \<open>The C integer type of the target\<close>

text \<open>
  The sketch computes with the C type \<^verbatim>\<open>int\<close>. Its width is fixed by the compiler
  and board, not by the sketch, so the width \<open>w\<close> (in bits) is a parameter of the
  model. The boards named in the repository (Arduino Uno, ATmega328P, with the CNC
  shield pin map) have \<open>w = 16\<close>; a 32-bit board has \<open>w = 32\<close>. A value of type
  \<^verbatim>\<open>int\<close> is a HOL integer in the range of \<open>in_range w\<close>; the result of an arithmetic
  operation is reduced into that range two's-complement fashion, which is what the
  compiled multiplication, addition and subtraction do on these boards.
  Division and remainder truncate towards zero, as C prescribes. Dividing by zero is
  undefined in C; the model's \<open>c_div\<close> then gives 0 and \<open>c_mod\<close> gives the dividend,
  and the theorems below exclude it by hypothesis (no reachable state divides by zero,
  see \<open>state_ok\<close>).
\<close>

definition wrap :: "nat \<Rightarrow> int \<Rightarrow> int" where
  "wrap w x = (x + 2 ^ (w - 1)) mod 2 ^ w - 2 ^ (w - 1)"

definition in_range :: "nat \<Rightarrow> int \<Rightarrow> bool" where
  "in_range w x = (- (2 ^ (w - 1)) \<le> x \<and> x < 2 ^ (w - 1))"

definition c_add :: "nat \<Rightarrow> int \<Rightarrow> int \<Rightarrow> int" where
  "c_add w a b = wrap w (a + b)"

definition c_sub :: "nat \<Rightarrow> int \<Rightarrow> int \<Rightarrow> int" where
  "c_sub w a b = wrap w (a - b)"

definition c_mul :: "nat \<Rightarrow> int \<Rightarrow> int \<Rightarrow> int" where
  "c_mul w a b = wrap w (a * b)"

definition c_neg :: "nat \<Rightarrow> int \<Rightarrow> int" where
  "c_neg w a = wrap w (- a)"

definition c_div :: "nat \<Rightarrow> int \<Rightarrow> int \<Rightarrow> int" where
  "c_div w a b = wrap w (sgn a * sgn b * (\<bar>a\<bar> div \<bar>b\<bar>))"

definition c_mod :: "int \<Rightarrow> int \<Rightarrow> int" where
  "c_mod a b = sgn a * (\<bar>a\<bar> mod \<bar>b\<bar>)"

section \<open>Arduino strings\<close>

text \<open>
  The functions of the Arduino \<^verbatim>\<open>String\<close> class that the sketch calls. They belong
  to the Arduino core, not to the repository; they are written out here as the core
  documents them. \<open>toInt\<close> is \<^verbatim>\<open>atol\<close> (leading white space, an optional sign, then
  decimal digits; 0 when there is no digit) followed by the conversion of the
  \<^verbatim>\<open>long\<close> to \<^verbatim>\<open>int\<close>. \<open>toFloat\<close> is \<^verbatim>\<open>atof\<close> restricted to plain decimal notation
  (sign, digits, an optional fraction); a \<^verbatim>\<open>float\<close> is modelled by the rational number
  it stands for.
\<close>

definition isspace :: "char \<Rightarrow> bool" where
  "isspace c = (of_char c \<in> {32::nat, 9, 10, 11, 12, 13})"

definition isdigit :: "char \<Rightarrow> bool" where
  "isdigit c = ((48::nat) \<le> of_char c \<and> of_char c \<le> (57::nat))"

definition digit_val :: "char \<Rightarrow> int" where
  "digit_val c = int (of_char c) - 48"

definition toupper :: "char \<Rightarrow> char" where
  "toupper c = (case c of Char b0 b1 b2 b3 b4 b5 b6 b7 \<Rightarrow>
     if (97::nat) \<le> of_char c \<and> of_char c \<le> (122::nat)
     then Char b0 b1 b2 b3 b4 False b6 b7 else c)"

definition trim :: "string \<Rightarrow> string" where
  "trim s = rev (dropWhile isspace (rev (dropWhile isspace s)))"

definition toUpperCase :: "string \<Rightarrow> string" where
  "toUpperCase s = map toupper s"

definition startsWith :: "string \<Rightarrow> string \<Rightarrow> bool" where
  "startsWith s p = (take (length p) s = p)"

definition substring_from :: "string \<Rightarrow> nat \<Rightarrow> string" where
  "substring_from s n = drop n s"

fun indexOf :: "string \<Rightarrow> char \<Rightarrow> nat option" where
  "indexOf [] ch = None"
| "indexOf (c # cs) ch =
     (if c = ch then Some 0 else (case indexOf cs ch of None \<Rightarrow> None | Some k \<Rightarrow> Some (Suc k)))"

fun atol_digits :: "int \<Rightarrow> string \<Rightarrow> int" where
  "atol_digits acc [] = acc"
| "atol_digits acc (c # cs) =
     (if isdigit c then atol_digits (acc * 10 + digit_val c) cs else acc)"

definition atol :: "string \<Rightarrow> int" where
  "atol s = (case dropWhile isspace s of
       [] \<Rightarrow> 0
     | c # cs \<Rightarrow> if c = CHR ''-'' then - atol_digits 0 cs
                else if c = CHR ''+'' then atol_digits 0 cs
                else atol_digits 0 (c # cs))"

definition toInt :: "nat \<Rightarrow> string \<Rightarrow> int" where
  "toInt w s = wrap w (atol s)"

fun frac_digits :: "rat \<Rightarrow> rat \<Rightarrow> string \<Rightarrow> rat" where
  "frac_digits acc scale [] = acc"
| "frac_digits acc scale (c # cs) =
     (if isdigit c then frac_digits (acc + of_int (digit_val c) * scale / 10) (scale / 10) cs
      else acc)"

definition atof_unsigned :: "string \<Rightarrow> rat" where
  "atof_unsigned s =
     (let ip = of_int (atol_digits 0 s) in
      case dropWhile isdigit s of
        [] \<Rightarrow> ip
      | c # cs \<Rightarrow> if c = CHR ''.'' then frac_digits ip 1 cs else ip)"

definition toFloat :: "string \<Rightarrow> rat" where
  "toFloat s = (case dropWhile isspace s of
       [] \<Rightarrow> 0
     | c # cs \<Rightarrow> if c = CHR ''-'' then - atof_unsigned cs
                else if c = CHR ''+'' then atof_unsigned cs
                else atof_unsigned (c # cs))"

section \<open>The state of the sketch and its environment\<close>

text \<open>
  What the sketch writes to the serial port is a list of print items, one per
  \<^verbatim>\<open>Serial.print\<close> call: a string, an integer printed in decimal, a float printed
  with a number of decimal places, and the line end that \<^verbatim>\<open>println\<close> adds.
\<close>

datatype serial_item = Str string | IntDec int | FloatDec rat nat | Newline

text \<open>What the sketch does to the pins: \<^verbatim>\<open>pinMode(pin, OUTPUT)\<close> and \<^verbatim>\<open>digitalWrite\<close>.\<close>

datatype hw_event = PinMode nat | DigitalWrite nat bool

abbreviation (input) HIGH :: bool where "HIGH \<equiv> True"
abbreviation (input) LOW :: bool where "LOW \<equiv> False"

abbreviation (input) X_STEP_PIN :: nat where "X_STEP_PIN \<equiv> 2"
abbreviation (input) X_DIR_PIN :: nat where "X_DIR_PIN \<equiv> 5"
abbreviation (input) X_ENABLE_PIN :: nat where "X_ENABLE_PIN \<equiv> 8"
abbreviation (input) Z_STEP_PIN :: nat where "Z_STEP_PIN \<equiv> 4"
abbreviation (input) Z_DIR_PIN :: nat where "Z_DIR_PIN \<equiv> 7"
abbreviation (input) Z_ENABLE_PIN :: nat where "Z_ENABLE_PIN \<equiv> 8"

abbreviation (input) DEFAULT_STEPS_PER_REV :: int where "DEFAULT_STEPS_PER_REV \<equiv> 1600"
abbreviation (input) DEFAULT_THETA_STEPS_PER_REV :: int where "DEFAULT_THETA_STEPS_PER_REV \<equiv> 200"
abbreviation (input) DEFAULT_Z_STEPS_PER_MM :: int where "DEFAULT_Z_STEPS_PER_MM \<equiv> 200"
abbreviation (input) DEFAULT_Z_TRAVEL_MM :: int where "DEFAULT_Z_TRAVEL_MM \<equiv> 200"
abbreviation (input) DEFAULT_Z_STEPS_PER_LAYER :: int where "DEFAULT_Z_STEPS_PER_LAYER \<equiv> 400"
abbreviation (input) DEFAULT_SCAN_DELAY_MS :: int where "DEFAULT_SCAN_DELAY_MS \<equiv> 50"
abbreviation (input) MIN_THETA_STEPS_PER_REV :: int where "MIN_THETA_STEPS_PER_REV \<equiv> 4"
abbreviation (input) MAX_THETA_STEPS_PER_REV :: int where "MAX_THETA_STEPS_PER_REV \<equiv> 3600"
abbreviation (input) DATA_DELIMITER :: int where "DATA_DELIMITER \<equiv> 9999"

text \<open>
  The global variables of the sketch, followed by its environment: the serial output
  so far, the pin events so far, and the VL53L0X sensor. The sensor is what the
  \<^verbatim>\<open>sensor\<close> object answers: the \<open>k\<close>-th poll returns the pair
  \<open>sensor_env s k\<close> of \<^verbatim>\<open>readRangeContinuousMillimeters()\<close> (a \<^verbatim>\<open>uint16_t\<close>)
  and \<^verbatim>\<open>timeoutOccurred()\<close>; \<open>sensor_reads\<close> counts the polls made.
  Calls of \<^verbatim>\<open>delay\<close> and \<^verbatim>\<open>delayMicroseconds\<close> only let time pass and leave no
  trace in the state.
\<close>

record scanner =
  scanning :: bool
  paused :: bool
  scan_direction_up :: bool
  current_theta_step :: int
  paused_layer :: int
  paused_step :: int
  scan_current_layer :: int
  scan_current_step :: int
  step_by_step_mode :: bool
  theta_steps_per_rev :: int
  z_steps_per_mm :: int
  z_travel_mm :: int
  z_steps_per_layer :: int
  scan_delay_ms :: int
  center_distance_cm :: rat
  steps_per_rev :: int
  serial_out :: "serial_item list"
  pin_log :: "hw_event list"
  sensor_env :: "nat \<Rightarrow> 16 word \<times> bool"
  sensor_reads :: nat

definition serial_print :: "serial_item \<Rightarrow> scanner \<Rightarrow> scanner" where
  "serial_print x s = s\<lparr>serial_out := serial_out s @ [x]\<rparr>"

definition serial_println :: "serial_item \<Rightarrow> scanner \<Rightarrow> scanner" where
  "serial_println x s = s\<lparr>serial_out := serial_out s @ [x, Newline]\<rparr>"

definition serial_newline :: "scanner \<Rightarrow> scanner" where
  "serial_newline s = s\<lparr>serial_out := serial_out s @ [Newline]\<rparr>"

definition pinMode :: "nat \<Rightarrow> scanner \<Rightarrow> scanner" where
  "pinMode p s = s\<lparr>pin_log := pin_log s @ [PinMode p]\<rparr>"

definition digitalWrite :: "nat \<Rightarrow> bool \<Rightarrow> scanner \<Rightarrow> scanner" where
  "digitalWrite p v s = s\<lparr>pin_log := pin_log s @ [DigitalWrite p v]\<rparr>"

section \<open>The VL53L0X reading\<close>

text \<open>
  \<open>sensor_poll\<close> is the pair of calls on the \<^verbatim>\<open>sensor\<close> object; \<open>readVL53L0X\<close> is
  the body of the sketch's function on what the object answered. The division
  \<^verbatim>\<open>distance / 10.0\<close> is taken exactly.
\<close>

definition sensor_poll :: "scanner \<Rightarrow> (16 word \<times> bool) \<times> scanner" where
  "sensor_poll s = (sensor_env s (sensor_reads s), s\<lparr>sensor_reads := Suc (sensor_reads s)\<rparr>)"

definition readVL53L0X :: "16 word \<times> bool \<Rightarrow> rat" where
  "readVL53L0X r = (case r of (distance, timeoutOccurred) \<Rightarrow>
     if timeoutOccurred then 0
     else if distance > 1200 \<or> distance = 0 then 0
     else of_nat (unat distance) / 10)"

section \<open>Motor control\<close>

text \<open>
  The loops \<^verbatim>\<open>for (int i = 0; i < steps; i++)\<close>. The counter stays below the bound,
  which is an \<^verbatim>\<open>int\<close>, so \<^verbatim>\<open>i++\<close> never overflows.
\<close>

function rotateMotorX_from :: "int \<Rightarrow> int \<Rightarrow> scanner \<Rightarrow> scanner" where
  "rotateMotorX_from i steps s =
     (if i < steps
      then rotateMotorX_from (i + 1) steps
             (digitalWrite X_STEP_PIN HIGH (digitalWrite X_STEP_PIN LOW s))
      else s)"
  by pat_completeness auto
termination
  by (relation "measure (\<lambda>(i, steps, s). nat (steps - i))") auto

declare rotateMotorX_from.simps [simp del]

definition rotateMotorX :: "int \<Rightarrow> scanner \<Rightarrow> scanner" where
  "rotateMotorX steps s = rotateMotorX_from 0 steps s"

function rotateMotorZ_from :: "int \<Rightarrow> int \<Rightarrow> scanner \<Rightarrow> scanner" where
  "rotateMotorZ_from i steps s =
     (if i < steps
      then rotateMotorZ_from (i + 1) steps
             (digitalWrite Z_STEP_PIN HIGH (digitalWrite Z_STEP_PIN LOW s))
      else s)"
  by pat_completeness auto
termination
  by (relation "measure (\<lambda>(i, steps, s). nat (steps - i))") auto

declare rotateMotorZ_from.simps [simp del]

definition rotateMotorZ :: "int \<Rightarrow> scanner \<Rightarrow> scanner" where
  "rotateMotorZ steps s = rotateMotorZ_from 0 steps s"

function moveToTop_from :: "int \<Rightarrow> int \<Rightarrow> scanner \<Rightarrow> scanner" where
  "moveToTop_from i totalZSteps s =
     (if i < totalZSteps
      then moveToTop_from (i + 1) totalZSteps (rotateMotorZ (z_steps_per_layer s) s)
      else s)"
  by pat_completeness auto
termination
  by (relation "measure (\<lambda>(i, totalZSteps, s). nat (totalZSteps - i))") auto

declare moveToTop_from.simps [simp del]

definition moveToTop :: "nat \<Rightarrow> scanner \<Rightarrow> scanner" where
  "moveToTop w s =
     (let s1 = digitalWrite Z_DIR_PIN LOW s;
          totalZSteps = c_div w (c_mul w (z_travel_mm s1) (z_steps_per_mm s1)) (z_steps_per_layer s1)
      in moveToTop_from 0 totalZSteps s1)"

function returnToHome_from :: "int \<Rightarrow> int \<Rightarrow> scanner \<Rightarrow> scanner" where
  "returnToHome_from i totalZSteps s =
     (if i < totalZSteps
      then returnToHome_from (i + 1) totalZSteps (rotateMotorZ (z_steps_per_layer s) s)
      else s)"
  by pat_completeness auto
termination
  by (relation "measure (\<lambda>(i, totalZSteps, s). nat (totalZSteps - i))") auto

declare returnToHome_from.simps [simp del]

definition returnToHome :: "nat \<Rightarrow> scanner \<Rightarrow> scanner" where
  "returnToHome w s =
     (let s1 = digitalWrite Z_DIR_PIN HIGH s;
          totalZSteps = c_div w (c_mul w (z_travel_mm s1) (z_steps_per_mm s1)) (z_steps_per_layer s1)
      in digitalWrite Z_DIR_PIN LOW (returnToHome_from 0 totalZSteps s1))"

definition initMotors :: "scanner \<Rightarrow> scanner" where
  "initMotors s =
     (digitalWrite Z_STEP_PIN LOW (digitalWrite X_STEP_PIN LOW
      (digitalWrite Z_DIR_PIN LOW (digitalWrite X_DIR_PIN LOW
      (digitalWrite Z_ENABLE_PIN LOW (digitalWrite X_ENABLE_PIN LOW
      (pinMode Z_DIR_PIN (pinMode Z_STEP_PIN
      (pinMode X_ENABLE_PIN (pinMode X_DIR_PIN (pinMode X_STEP_PIN s)))))))))))"

section \<open>Closed forms of the motor loops\<close>

text \<open>\<open>pulses pin n\<close> is a train of \<open>n\<close> pulses on a pin: LOW then HIGH, \<open>n\<close> times.\<close>

definition pulses :: "nat \<Rightarrow> nat \<Rightarrow> hw_event list" where
  "pulses pin n = concat (replicate n [DigitalWrite pin LOW, DigitalWrite pin HIGH])"

lemma pulses_0: "pulses pin 0 = []"
  by (simp add: pulses_def)

lemma pulses_Suc:
  "pulses pin (Suc n) = DigitalWrite pin LOW # DigitalWrite pin HIGH # pulses pin n"
  by (simp add: pulses_def)

lemma nat_diff_step: "i < n \<Longrightarrow> nat (n - i) = Suc (nat (n - (i + 1)))" for i n :: int
  by simp

lemma rotateMotorX_from_eq:
  "rotateMotorX_from i n s = s\<lparr>pin_log := pin_log s @ pulses X_STEP_PIN (nat (n - i))\<rparr>"
proof (induction i n s rule: rotateMotorX_from.induct)
  case (1 i steps s)
  show ?case
  proof (cases "i < steps")
    case True
    then show ?thesis
      using 1[OF True]
      by (subst rotateMotorX_from.simps)
         (simp add: nat_diff_step pulses_Suc digitalWrite_def)
  next
    case False
    then show ?thesis
      by (subst rotateMotorX_from.simps) (simp add: pulses_0)
  qed
qed

lemma rotateMotorZ_from_eq:
  "rotateMotorZ_from i n s = s\<lparr>pin_log := pin_log s @ pulses Z_STEP_PIN (nat (n - i))\<rparr>"
proof (induction i n s rule: rotateMotorZ_from.induct)
  case (1 i steps s)
  show ?case
  proof (cases "i < steps")
    case True
    then show ?thesis
      using 1[OF True]
      by (subst rotateMotorZ_from.simps)
         (simp add: nat_diff_step pulses_Suc digitalWrite_def)
  next
    case False
    then show ?thesis
      by (subst rotateMotorZ_from.simps) (simp add: pulses_0)
  qed
qed

lemma rotateMotorX_eq:
  "rotateMotorX n s = s\<lparr>pin_log := pin_log s @ pulses X_STEP_PIN (nat n)\<rparr>"
  by (simp add: rotateMotorX_def rotateMotorX_from_eq)

lemma rotateMotorZ_eq:
  "rotateMotorZ n s = s\<lparr>pin_log := pin_log s @ pulses Z_STEP_PIN (nat n)\<rparr>"
  by (simp add: rotateMotorZ_def rotateMotorZ_from_eq)


section \<open>Scanning\<close>

text \<open>
  A point line: \<^verbatim>\<open>layer,step,distance,angle\<close>, the distance printed with 2 decimal
  places and the angle with 1. The three places of the sketch that print a point
  make the same seven \<^verbatim>\<open>Serial.print\<close> calls.
\<close>

definition point_line :: "int \<Rightarrow> int \<Rightarrow> rat \<Rightarrow> rat \<Rightarrow> serial_item list" where
  "point_line layer step distance angle =
     [IntDec layer, Str '','', IntDec step, Str '','', FloatDec distance 2, Str '','',
      FloatDec angle 1, Newline]"

definition print_point :: "int \<Rightarrow> int \<Rightarrow> rat \<Rightarrow> rat \<Rightarrow> scanner \<Rightarrow> scanner" where
  "print_point layer step distance angle s =
     serial_println (FloatDec angle 1) (serial_print (Str '','')
       (serial_print (FloatDec distance 2) (serial_print (Str '','')
         (serial_print (IntDec step) (serial_print (Str '','')
           (serial_print (IntDec layer) s))))))"

text \<open>
  \<^verbatim>\<open>(k % theta_steps_per_rev) * 360.0 / theta_steps_per_rev\<close>, taken exactly.
\<close>

definition angle_of :: "int \<Rightarrow> int \<Rightarrow> rat" where
  "angle_of k theta = of_int (c_mod k theta) * 360 / of_int theta"

definition performScanStep :: "nat \<Rightarrow> scanner \<Rightarrow> scanner" where
  "performScanStep w s =
     (let zLayers0 = (if z_steps_per_layer s > 0
                      then c_div w (c_mul w (z_travel_mm s) (z_steps_per_mm s)) (z_steps_per_layer s)
                      else 0);
          zLayers = (if zLayers0 \<le> 0 then 1000 else zLayers0)
      in if scan_current_step s \<ge> theta_steps_per_rev s then
           (let s1 = s\<lparr>scan_current_step := 0\<rparr>;
                s2 = s1\<lparr>scan_current_layer := c_add w (scan_current_layer s1) 1\<rparr>
            in if scan_current_layer s2 \<ge> zLayers \<and> scan_current_layer s2 > 0 then
                 (serial_println (Str ''SCAN_COMPLETE'') s2)
                   \<lparr>scanning := False, step_by_step_mode := False\<rparr>
               else
                 (let s3 = (if z_steps_per_layer s2 > 0 then
                              digitalWrite Z_DIR_PIN LOW
                                (rotateMotorZ (z_steps_per_layer s2)
                                  (if scan_direction_up s2 then digitalWrite Z_DIR_PIN LOW s2
                                   else digitalWrite Z_DIR_PIN HIGH s2))
                            else s2)
                  in serial_println (IntDec DATA_DELIMITER) s3))
         else
           (let s1 = rotateMotorX 1 (digitalWrite X_DIR_PIN LOW s);
                s2 = s1\<lparr>scan_current_step := c_add w (scan_current_step s1) 1\<rparr>;
                s3 = s2\<lparr>current_theta_step :=
                        c_mod (c_add w (current_theta_step s2) 1) (theta_steps_per_rev s2)\<rparr>;
                (r, s4) = sensor_poll s3;
                distance = readVL53L0X r;
                angle = angle_of (scan_current_step s4) (theta_steps_per_rev s4)
            in print_point (scan_current_layer s4) (c_sub w (scan_current_step s4) 1)
                 distance angle s4))"

text \<open>
  The inner loop of \<^verbatim>\<open>resumeScan\<close>,
  \<^verbatim>\<open>for (step = step_start; step < theta_steps_per_rev && scanning && !paused; step++)\<close>.
  A \<^verbatim>\<open>break\<close> returns the state. The two waiting loops on \<^verbatim>\<open>delay_remaining\<close>
  only call \<^verbatim>\<open>delay\<close> and end after finitely many rounds; they change nothing.
\<close>

function resumeScan_steps :: "nat \<Rightarrow> int \<Rightarrow> int \<Rightarrow> int \<Rightarrow> int \<Rightarrow> scanner \<Rightarrow> scanner" where
  "resumeScan_steps w steps_per_point remainder layer step s =
     (if step < theta_steps_per_rev s \<and> scanning s \<and> \<not> paused s then
        if \<not> scanning s \<or> paused s then s
        else
          let steps_this_point =
                (if step < remainder then c_add w steps_per_point 1 else steps_per_point);
              s1 = rotateMotorX steps_this_point s
          in if \<not> scanning s1 \<or> paused s1 then s1
             else
               let s2 = s1\<lparr>current_theta_step :=
                          c_mod (c_add w (current_theta_step s1) 1) (theta_steps_per_rev s1)\<rparr>
               in if \<not> scanning s2 \<or> paused s2
                  then s2\<lparr>paused_layer := layer, paused_step := step\<rparr>
                  else
                    let (r, s3) = sensor_poll s2;
                        distance = readVL53L0X r;
                        s4 = (if \<not> paused s3
                              then print_point layer step distance
                                     (angle_of step (theta_steps_per_rev s3)) s3
                              else s3)
                    in resumeScan_steps w steps_per_point remainder layer (step + 1) s4
      else s)"
  by pat_completeness auto
termination
  by (relation "measure (\<lambda>(w, spp, rem, layer, step, s). nat (theta_steps_per_rev s - step))")
     (auto simp: rotateMotorX_eq sensor_poll_def print_point_def serial_print_def
        serial_println_def)

declare resumeScan_steps.simps [simp del]

text \<open>
  The outer loop,
  \<^verbatim>\<open>for (layer = start_layer; layer < zLayers && scanning && !paused; layer++)\<close>.
\<close>

function resumeScan_layers ::
  "nat \<Rightarrow> int \<Rightarrow> int \<Rightarrow> int \<Rightarrow> int \<Rightarrow> int \<Rightarrow> int \<Rightarrow> scanner \<Rightarrow> scanner" where
  "resumeScan_layers w zLayers start_layer start_step steps_per_point remainder layer s =
     (if layer < zLayers \<and> scanning s \<and> \<not> paused s then
        let step_start = (if layer = start_layer then start_step else 0);
            s1 = resumeScan_steps w steps_per_point remainder layer step_start s
        in if paused s1 then s1\<lparr>paused_layer := layer, paused_step := 0\<rparr>
           else if layer < c_sub w zLayers 1 \<and> scanning s1 \<and> \<not> paused s1 then
             (if \<not> scanning s1 \<or> paused s1 then s1
              else
                let s2 = digitalWrite Z_DIR_PIN LOW
                           (rotateMotorZ (z_steps_per_layer s1)
                             (digitalWrite Z_DIR_PIN HIGH s1))
                in if \<not> scanning s2 \<or> paused s2 then s2
                   else if \<not> scanning s2 \<or> paused s2
                   then s2\<lparr>paused_layer := layer, paused_step := 0\<rparr>
                   else
                     let s3 = (if \<not> paused s2
                               then serial_println (IntDec DATA_DELIMITER) s2 else s2)
                     in resumeScan_layers w zLayers start_layer start_step steps_per_point
                          remainder (layer + 1) s3)
           else resumeScan_layers w zLayers start_layer start_step steps_per_point
                  remainder (layer + 1) s1
      else s)"
  by pat_completeness auto
termination
  by (relation "measure (\<lambda>(w, zLayers, sl, ss, spp, rem, layer, s). nat (zLayers - layer))")
     auto


declare resumeScan_layers.simps [simp del]

definition resumeScan :: "nat \<Rightarrow> scanner \<Rightarrow> scanner" where
  "resumeScan w s =
     (let zLayers = c_div w (c_mul w (z_travel_mm s) (z_steps_per_mm s)) (z_steps_per_layer s);
          start_layer = paused_layer s;
          start_step = paused_step s;
          s1 = (if start_layer = 0 \<and> start_step = 0
                then moveToTop w
                       (serial_println (Str ''Resuming: Moving to top position...'') s)
                else s);
          steps_per_point = c_div w (steps_per_rev s1) (theta_steps_per_rev s1);
          remainder = c_mod (steps_per_rev s1) (theta_steps_per_rev s1);
          s2 = resumeScan_layers w zLayers start_layer start_step steps_per_point remainder
                 start_layer s1
      in if scanning s2 \<and> \<not> paused s2 then returnToHome w s2 else s2)"

section \<open>The CONFIG command\<close>

text \<open>
  The array \<^verbatim>\<open>int intValues[6]\<close> is a function from indices to values. The sketch
  does not initialise it: \<open>uninit\<close> is what the array holds on entry, an input of the
  model. The loop \<^verbatim>\<open>for (int i = 0; i < 5; i++)\<close> returns the array and the rest of
  \<^verbatim>\<open>params\<close>.
\<close>

function config_ints ::
  "nat \<Rightarrow> nat \<Rightarrow> string \<Rightarrow> (nat \<Rightarrow> int) \<Rightarrow> (nat \<Rightarrow> int) \<times> string" where
  "config_ints w i params intValues =
     (if i < 5 then
        (case indexOf params CHR '','' of
           None \<Rightarrow> (intValues(i := toInt w params), [])
         | Some commaIndex \<Rightarrow>
             config_ints w (i + 1) (substring_from params (commaIndex + 1))
               (intValues(i := toInt w (take commaIndex params))))
      else (intValues, params))"
  by pat_completeness auto
termination
  by (relation "measure (\<lambda>(w, i, params, intValues). 5 - i)") auto

declare config_ints.simps [simp del]

text \<open>The optional tail: \<^verbatim>\<open>centerDist\<close> and \<^verbatim>\<open>stepsPerRev\<close> with their defaults.\<close>

definition config_tail :: "nat \<Rightarrow> string \<Rightarrow> rat \<times> int" where
  "config_tail w params =
     (if length params > 0 then
        (case indexOf params CHR '','' of
           None \<Rightarrow> (toFloat params, DEFAULT_STEPS_PER_REV)
         | Some commaIndex \<Rightarrow>
             (let centerDist = toFloat (take commaIndex params);
                  params' = substring_from params (commaIndex + 1)
              in (centerDist,
                  if length params' > 0 then toInt w params' else DEFAULT_STEPS_PER_REV)))
      else (103 / 10, DEFAULT_STEPS_PER_REV))"

text \<open>The parsing half of \<^verbatim>\<open>processConfigCommand\<close>: the values it then validates.\<close>

definition parseConfig ::
  "nat \<Rightarrow> (nat \<Rightarrow> int) \<Rightarrow> string \<Rightarrow> (nat \<Rightarrow> int) \<times> rat \<times> int" where
  "parseConfig w uninit command =
     (let params = substring_from command 7;
          (intValues, params') = config_ints w 0 params uninit;
          (centerDist, stepsPerRev) = config_tail w params'
      in (intValues, centerDist, stepsPerRev))"

definition config_error_range :: "scanner \<Rightarrow> scanner" where
  "config_error_range s =
     serial_newline (serial_print (IntDec MAX_THETA_STEPS_PER_REV)
       (serial_print (Str '' and '') (serial_print (IntDec MIN_THETA_STEPS_PER_REV)
         (serial_print (Str ''CONFIG_ERROR: theta_steps must be between '') s))))"

definition config_error_exceed :: "int \<Rightarrow> int \<Rightarrow> scanner \<Rightarrow> scanner" where
  "config_error_exceed theta stepsPerRev s =
     serial_println (Str '')'') (serial_print (IntDec stepsPerRev)
       (serial_print (Str '') cannot exceed steps_per_rev ('') (serial_print (IntDec theta)
         (serial_print (Str ''CONFIG_ERROR: theta_steps ('') s))))"

definition config_ok_message :: "scanner \<Rightarrow> scanner" where
  "config_ok_message s =
     serial_println (IntDec (steps_per_rev s)) (serial_print (Str ''cm steps/rev='')
       (serial_print (FloatDec (center_distance_cm s) 1) (serial_print (Str ''ms center='')
         (serial_print (IntDec (scan_delay_ms s)) (serial_print (Str '' delay='')
           (serial_print (IntDec (z_steps_per_layer s)) (serial_print (Str '' z_steps/layer='')
             (serial_print (IntDec (z_steps_per_mm s)) (serial_print (Str ''mm z_steps/mm='')
               (serial_print (IntDec (z_travel_mm s)) (serial_print (Str '' z_travel='')
                 (serial_print (IntDec (theta_steps_per_rev s)) (serial_print (Str '' theta='')
                   (serial_print (Str ''CONFIG_OK:'') s))))))))))))))"

definition processConfigCommand :: "nat \<Rightarrow> (nat \<Rightarrow> int) \<Rightarrow> string \<Rightarrow> scanner \<Rightarrow> scanner" where
  "processConfigCommand w uninit command s =
     (case parseConfig w uninit command of (intValues, centerDist, stepsPerRev) \<Rightarrow>
        if intValues 0 < MIN_THETA_STEPS_PER_REV \<or> intValues 0 > MAX_THETA_STEPS_PER_REV
        then config_error_range s
        else if intValues 0 > stepsPerRev
        then config_error_exceed (intValues 0) stepsPerRev s
        else if intValues 0 > 0 \<and> intValues 1 > 0 \<and> intValues 2 > 0 \<and> intValues 3 > 0
                \<and> intValues 4 \<ge> 0 \<and> centerDist > 0 \<and> stepsPerRev > 0
        then config_ok_message
               (s\<lparr>theta_steps_per_rev := intValues 0,
                   z_travel_mm := intValues 1,
                   z_steps_per_mm := intValues 2,
                   z_steps_per_layer := intValues 3,
                   scan_delay_ms := intValues 4,
                   center_distance_cm := centerDist,
                   steps_per_rev := stepsPerRev\<rparr>)
        else serial_println (Str ''CONFIG_ERROR: Invalid values'') s)"

section \<open>The main loop\<close>

text \<open>
  One round of \<^verbatim>\<open>loop()\<close>. The input is \<open>None\<close> when \<^verbatim>\<open>Serial.available()\<close> is 0,
  and otherwise the line that \<^verbatim>\<open>Serial.readStringUntil('\n')\<close> returns.
\<close>

definition start_scan :: "bool \<Rightarrow> scanner \<Rightarrow> scanner" where
  "start_scan up s =
     serial_println (Str ''SCAN_START'')
       (s\<lparr>scanning := True, paused := False, paused_layer := 0, paused_step := 0,
           scan_current_layer := 0, scan_current_step := 0, scan_direction_up := up,
           step_by_step_mode := True, current_theta_step := 0\<rparr>)"

definition get_config :: "scanner \<Rightarrow> scanner" where
  "get_config s =
     serial_println (IntDec (steps_per_rev s)) (serial_print (Str '','')
       (serial_print (FloatDec (center_distance_cm s) 1) (serial_print (Str '','')
         (serial_print (IntDec (scan_delay_ms s)) (serial_print (Str '','')
           (serial_print (IntDec (z_steps_per_layer s)) (serial_print (Str '','')
             (serial_print (IntDec (z_steps_per_mm s)) (serial_print (Str '','')
               (serial_print (IntDec (z_travel_mm s)) (serial_print (Str '','')
                 (serial_print (IntDec (theta_steps_per_rev s))
                   (serial_print (Str ''CURRENT_CONFIG:'') s)))))))))))))"

definition loop :: "nat \<Rightarrow> (nat \<Rightarrow> int) \<Rightarrow> string option \<Rightarrow> scanner \<Rightarrow> scanner" where
  "loop w uninit input s =
     (case input of
        None \<Rightarrow> s
      | Some line \<Rightarrow>
          let command = toUpperCase (trim line) in
          if command = ''START'' \<or> command = ''START_UP'' then start_scan True s
          else if command = ''START_DOWN'' then start_scan False s
          else if command = ''SCAN_STEP'' then
            (if \<not> scanning s \<or> \<not> step_by_step_mode s
             then serial_println (Str ''ERROR: Not in step-by-step scan mode!'') s
             else performScanStep w s)
          else if command = ''STOP'' then
            serial_println (Str ''SCAN_PAUSED'') (s\<lparr>paused := True, scanning := False\<rparr>)
          else if command = ''RESUME'' then
            (if paused s then
               let s1 = serial_println (Str ''SCAN_RESUMED'')
                          (s\<lparr>paused := False, scanning := True\<rparr>);
                   s2 = resumeScan w s1;
                   s3 = (if \<not> paused s2 then serial_println (Str ''SCAN_COMPLETE'') s2 else s2)
               in s3\<lparr>scanning := False\<rparr>
             else s)
          else if command = ''HOME'' then
            serial_println (Str ''HOME_COMPLETE'') (returnToHome w s)
          else if command = ''MOVE_TO_TOP'' then
            serial_println (Str ''MOVE_TO_TOP_COMPLETE'')
              (moveToTop w (serial_println (Str ''Moving to top position...'') s))
          else if command = ''TEST'' then
            (let (r, s1) = sensor_poll s;
                 distance = readVL53L0X r
             in serial_println (FloatDec distance 2) (serial_print (Str ''Distance: '') s1))
          else if command = ''TEST_POINT'' then
            (let (r, s1) = sensor_poll s;
                 distance = readVL53L0X r;
                 angle = angle_of (current_theta_step s1) (theta_steps_per_rev s1)
             in serial_println (FloatDec distance 2) (serial_print (Str '','')
                  (serial_print (FloatDec angle 1) (serial_print (Str ''TEST_POINT:'') s1))))
          else if startsWith command ''ROTATE,'' then
            (let steps_str = substring_from command 7;
                 steps = toInt w steps_str
             in if steps > 0 then
                  (let s1 = rotateMotorX steps (digitalWrite X_DIR_PIN LOW s);
                       s2 = s1\<lparr>current_theta_step :=
                               c_mod (c_add w (current_theta_step s1) steps)
                                 (theta_steps_per_rev s1)\<rparr>
                   in serial_println (IntDec steps) (serial_print (Str ''ROTATED:'') s2))
                else serial_println (Str steps_str)
                       (serial_print (Str ''ROTATE_ERROR: Invalid steps: '') s))
          else if startsWith command ''ROTATE_CCW,'' then
            (let steps_str = substring_from command 11;
                 steps = toInt w steps_str
             in if steps > 0 then
                  (let s1 = rotateMotorX steps (digitalWrite X_DIR_PIN HIGH s);
                       s2 = s1\<lparr>current_theta_step :=
                               c_mod (c_add w (c_sub w (current_theta_step s1) steps)
                                        (theta_steps_per_rev s1))
                                 (theta_steps_per_rev s1)\<rparr>
                   in serial_newline (serial_print (IntDec (c_neg w steps))
                        (serial_print (Str ''ROTATED:'') s2)))
                else s)
          else if startsWith command ''ROTATE_Z,'' then
            (let steps_str = substring_from command 9;
                 steps = toInt w steps_str
             in if steps > 0 then
                  (let s1 = rotateMotorZ steps (digitalWrite Z_DIR_PIN LOW s)
                   in serial_println (IntDec steps) (serial_print (Str ''ROTATED_Z:'') s1))
                else serial_println (Str steps_str)
                       (serial_print (Str ''ROTATE_Z_ERROR: Invalid steps: '') s))
          else if startsWith command ''ROTATE_Z_CCW,'' then
            (let steps_str = substring_from command 13;
                 steps = toInt w steps_str
             in if steps > 0 then
                  (let s1 = rotateMotorZ steps (digitalWrite Z_DIR_PIN HIGH s)
                   in serial_newline (serial_print (IntDec (c_neg w steps))
                        (serial_print (Str ''ROTATED_Z:'') s1)))
                else s)
          else if startsWith command ''CONFIG,'' then processConfigCommand w uninit command s
          else if command = ''GET_CONFIG'' then get_config s
          else if command = ''READ_LIDAR'' then
            (let (r, s1) = sensor_poll s;
                 distance = readVL53L0X r
             in serial_println (FloatDec distance 2) (serial_print (Str ''LIDAR_DISTANCE:'') s1))
          else s)"

section \<open>Start-up\<close>

text \<open>
  \<open>power_on\<close> holds the initial values of the global variables. \<open>setup_sketch\<close>
  (the sketch's \<^verbatim>\<open>setup()\<close>) takes the
  answer of \<^verbatim>\<open>sensor.init()\<close>: when the sensor is not found the sketch prints a
  message and stays in \<^verbatim>\<open>while (1) {}\<close>, so it does not return (\<open>None\<close>).
\<close>

definition power_on :: "(nat \<Rightarrow> 16 word \<times> bool) \<Rightarrow> scanner" where
  "power_on env =
     \<lparr>scanning = False, paused = False, scan_direction_up = True, current_theta_step = 0,
      paused_layer = 0, paused_step = 0, scan_current_layer = 0, scan_current_step = 0,
      step_by_step_mode = False,
      theta_steps_per_rev = DEFAULT_THETA_STEPS_PER_REV,
      z_steps_per_mm = DEFAULT_Z_STEPS_PER_MM,
      z_travel_mm = DEFAULT_Z_TRAVEL_MM,
      z_steps_per_layer = DEFAULT_Z_STEPS_PER_LAYER,
      scan_delay_ms = DEFAULT_SCAN_DELAY_MS,
      center_distance_cm = 15,
      steps_per_rev = DEFAULT_STEPS_PER_REV,
      serial_out = [], pin_log = [], sensor_env = env, sensor_reads = 0\<rparr>"

definition initVL53L0X :: "bool \<Rightarrow> scanner \<Rightarrow> scanner option" where
  "initVL53L0X init_ok s =
     (if \<not> init_ok then None
      else Some (serial_println (Str ''VL53L0X Initialized'') s))"

definition banner :: "scanner \<Rightarrow> scanner" where
  "banner s =
     serial_println (Str ''ms'') (serial_print (IntDec (scan_delay_ms s))
       (serial_print (Str '' delay='') (serial_print (IntDec (z_steps_per_layer s))
         (serial_print (Str '' z_steps/layer='') (serial_print (IntDec (z_steps_per_mm s))
           (serial_print (Str ''mm z_steps/mm='') (serial_print (IntDec (z_travel_mm s))
             (serial_print (Str '' z_travel='') (serial_print (IntDec (theta_steps_per_rev s))
               (serial_print (Str ''Current config: theta='')
       (serial_println (Str ''  Note: z_steps/layer is auto-calculated from z_layer_height * z_steps/mm in GUI'')
       (serial_println (Str ''  CONFIG,theta,z_travel,z_steps/mm,z_steps/layer,delay,center,steps/rev - Set scan parameters'')
       (serial_println (Str ''  MOVE_TO_TOP - Move to top position'')
       (serial_println (Str ''  HOME - Return to home position'')
       (serial_println (Str ''  STOP - Stop scanning'')
       (serial_println (Str ''  START - Begin scanning'')
       (serial_println (Str ''Commands:'')
       (serial_println (Str ''3D Scanner Ready'') s))))))))))))))))))"

definition setup_sketch :: "bool \<Rightarrow> scanner \<Rightarrow> scanner option" where
  "setup_sketch init_ok s =
     (case initVL53L0X init_ok s of
        None \<Rightarrow> None
      | Some s1 \<Rightarrow> Some (banner (initMotors s1)))"

section \<open>The sensor reading\<close>

lemma unat_le_1200: "\<not> (d :: 16 word) > 1200 \<Longrightarrow> unat d \<le> 1200"
  by (simp add: word_less_nat_alt)

lemma cm_bounds:
  assumes "d \<noteq> 0" "\<not> (d :: 16 word) > 1200"
  shows "0 < (of_nat (unat d) :: rat) / 10 \<and> (of_nat (unat d) :: rat) / 10 \<le> 120"
proof -
  have "0 < unat d" using assms(1) by (simp add: unat_gt_0)
  moreover have "unat d \<le> 1200" using assms(2) by (rule unat_le_1200)
  ultimately have "0 < (of_nat (unat d) :: rat) \<and> (of_nat (unat d) :: rat) \<le> of_nat 1200"
    by (simp only: of_nat_0_less_iff of_nat_le_iff)
  then show ?thesis by (simp del: of_nat_unat)
qed

text \<open>
  Claim C9. \<open>readVL53L0X\<close> returns 0 exactly when the sensor reports a timeout, a raw
  distance of 0, or a raw distance above 1200 mm; otherwise it returns the raw
  distance divided by 10 (centimetres). Every value it returns lies in \<open>[0, 120]\<close>.
  Here \<open>d\<close> is what \<^verbatim>\<open>readRangeContinuousMillimeters()\<close> returned and \<open>t\<close> what
  \<^verbatim>\<open>timeoutOccurred()\<close> returned.
\<close>

theorem readVL53L0X_mapping:
  "(readVL53L0X (d, t) = 0 \<longleftrightarrow> t \<or> d = 0 \<or> d > 1200)
   \<and> (\<not> (t \<or> d = 0 \<or> d > 1200) \<longrightarrow> readVL53L0X (d, t) = of_nat (unat d) / 10)
   \<and> 0 \<le> readVL53L0X (d, t) \<and> readVL53L0X (d, t) \<le> 120"
proof (cases "t \<or> d = 0 \<or> d > 1200")
  case True
  then have "readVL53L0X (d, t) = 0"
    by (auto simp: readVL53L0X_def)
  with True show ?thesis by simp
next
  case False
  then have v: "readVL53L0X (d, t) = of_nat (unat d) / 10"
    by (simp add: readVL53L0X_def del: of_nat_unat)
  from False cm_bounds[of d]
  have "0 < (of_nat (unat d) :: rat) / 10 \<and> (of_nat (unat d) :: rat) / 10 \<le> 120"
    by blast
  with v False show ?thesis by (simp del: of_nat_unat)
qed

theorem readVL53L0X_mapping_witness:
  "readVL53L0X (500, False) = 50 \<and> readVL53L0X (0, False) = 0
   \<and> readVL53L0X (1201, False) = 0 \<and> readVL53L0X (1200, False) = 120
   \<and> readVL53L0X (700, True) = 0"
  using readVL53L0X_mapping[of 500 False] readVL53L0X_mapping[of 0 False]
    readVL53L0X_mapping[of 1201 False] readVL53L0X_mapping[of 1200 False]
    readVL53L0X_mapping[of 700 True]
  by simp

section \<open>Evaluation on concrete inputs\<close>

lemmas string_eval = toUpperCase_def trim_def toupper_def isspace_def startsWith_def

lemmas int_eval = wrap_def c_add_def c_sub_def c_mul_def c_neg_def c_div_def c_mod_def
lemmas parse_eval = toInt_def atol_def isdigit_def digit_val_def toFloat_def atof_unsigned_def
  substring_from_def config_tail_def

definition example_env :: "nat \<Rightarrow> 16 word \<times> bool" where
  "example_env k = (500, False)"


section \<open>CONFIG validation\<close>

definition config_accepts :: "(nat \<Rightarrow> int) \<Rightarrow> rat \<Rightarrow> int \<Rightarrow> bool" where
  "config_accepts v centerDist stepsPerRev =
     (4 \<le> v 0 \<and> v 0 \<le> 3600 \<and> v 0 \<le> stepsPerRev
      \<and> 0 < v 0 \<and> 0 < v 1 \<and> 0 < v 2 \<and> 0 < v 3 \<and> 0 \<le> v 4
      \<and> 0 < centerDist \<and> 0 < stepsPerRev)"

definition is_config_error :: "serial_item list \<Rightarrow> bool" where
  "is_config_error out =
     (case out of Str msg # rest \<Rightarrow> startsWith msg ''CONFIG_ERROR'' | _ \<Rightarrow> False)"

lemma config_command_dispatch:
  assumes "startsWith (toUpperCase (trim line)) ''CONFIG,''"
  shows "loop w uninit (Some line) s = processConfigCommand w uninit (toUpperCase (trim line)) s"
proof -
  define c where "c = toUpperCase (trim line)"
  have "take (length ''CONFIG,'') c = ''CONFIG,''"
    using assms by (simp add: startsWith_def c_def)
  then have "c = ''CONFIG,'' @ drop (length ''CONFIG,'') c"
    by (metis append_take_drop_id)
  then obtain r where r: "c = ''CONFIG,'' @ r" ..
  have "loop w uninit (Some line) s = processConfigCommand w uninit c s"
    unfolding loop_def option.case Let_def c_def[symmetric]
    by (simp add: r startsWith_def)
  then show ?thesis by (simp add: c_def)
qed

lemma config_error_range_out:
  "\<exists>out. config_error_range s = s\<lparr>serial_out := serial_out s @ out\<rparr> \<and> is_config_error out"
  by (rule exI[of _ "[Str ''CONFIG_ERROR: theta_steps must be between '',
        IntDec MIN_THETA_STEPS_PER_REV, Str '' and '', IntDec MAX_THETA_STEPS_PER_REV, Newline]"])
     (simp add: config_error_range_def serial_print_def serial_newline_def is_config_error_def
        startsWith_def)

lemma config_error_exceed_out:
  "\<exists>out. config_error_exceed a b s = s\<lparr>serial_out := serial_out s @ out\<rparr>
     \<and> is_config_error out"
  by (rule exI[of _ "[Str ''CONFIG_ERROR: theta_steps ('', IntDec a,
        Str '') cannot exceed steps_per_rev ('', IntDec b, Str '')'', Newline]"])
     (simp add: config_error_exceed_def serial_print_def serial_println_def is_config_error_def
        startsWith_def)

lemma config_error_invalid_out:
  "\<exists>out. serial_println (Str ''CONFIG_ERROR: Invalid values'') s =
       s\<lparr>serial_out := serial_out s @ out\<rparr> \<and> is_config_error out"
  by (rule exI[of _ "[Str ''CONFIG_ERROR: Invalid values'', Newline]"])
     (simp add: serial_println_def is_config_error_def startsWith_def)

text \<open>
  Claim C3. For every CONFIG command (a line whose trimmed, upper-cased text starts with
  \<^verbatim>\<open>CONFIG,\<close>), let \<open>v\<close>, \<open>centerDist\<close> and \<open>stepsPerRev\<close> be the parsed values.
  The seven configuration variables are all updated, and nothing else but the serial
  output changes, exactly when \<open>config_accepts\<close> holds: theta in \<open>[4, 3600]\<close> and
  not above the parsed steps per revolution, the first four integers positive, the
  delay not negative, the centre distance and the steps per revolution positive.
  In every other case the output is a line that begins with \<^verbatim>\<open>CONFIG_ERROR\<close> and
  nothing but the serial output changes. An entry of \<open>v\<close> that the command has no
  field for is what the array held on entry (\<open>uninit\<close>).
\<close>

theorem config_atomic:
  assumes "startsWith (toUpperCase (trim line)) ''CONFIG,''"
      and "parseConfig w uninit (toUpperCase (trim line)) = (v, centerDist, stepsPerRev)"
  shows "if config_accepts v centerDist stepsPerRev
         then \<exists>out. loop w uninit (Some line) s =
                s\<lparr>theta_steps_per_rev := v 0, z_travel_mm := v 1, z_steps_per_mm := v 2,
                  z_steps_per_layer := v 3, scan_delay_ms := v 4,
                  center_distance_cm := centerDist, steps_per_rev := stepsPerRev,
                  serial_out := serial_out s @ out\<rparr>
         else \<exists>out. loop w uninit (Some line) s = s\<lparr>serial_out := serial_out s @ out\<rparr>
                \<and> is_config_error out"
proof -
  have d: "loop w uninit (Some line) s = processConfigCommand w uninit (toUpperCase (trim line)) s"
    using assms(1) by (rule config_command_dispatch)
  show ?thesis
  proof (cases "config_accepts v centerDist stepsPerRev")
    case True
    then show ?thesis
      unfolding d processConfigCommand_def assms(2)
      by (simp add: config_accepts_def config_ok_message_def serial_print_def serial_println_def)
         (rule exI, rule refl)
  next
    case False
    consider (range) "v 0 < 4 \<or> v 0 > 3600"
      | (exceed) "\<not> (v 0 < 4 \<or> v 0 > 3600)" "v 0 > stepsPerRev"
      | (invalid) "\<not> (v 0 < 4 \<or> v 0 > 3600)" "\<not> v 0 > stepsPerRev"
      by blast
    then have "\<exists>out. processConfigCommand w uninit (toUpperCase (trim line)) s =
                 s\<lparr>serial_out := serial_out s @ out\<rparr> \<and> is_config_error out"
    proof cases
      case range
      then show ?thesis
        unfolding processConfigCommand_def assms(2)
        by (simp add: config_error_range_out)
    next
      case exceed
      then show ?thesis
        unfolding processConfigCommand_def assms(2)
        by (simp add: config_error_exceed_out)
    next
      case invalid
      have "\<not> (0 < v 0 \<and> 0 < v 1 \<and> 0 < v 2 \<and> 0 < v 3 \<and> 0 \<le> v 4
                   \<and> 0 < centerDist \<and> 0 < stepsPerRev)"
        using False invalid by (auto simp: config_accepts_def)
      with invalid show ?thesis
        unfolding processConfigCommand_def assms(2)
        by (simp only: prod.case if_False) (rule config_error_invalid_out)
    qed
    with False show ?thesis by (simp add: d)
  qed
qed

theorem config_atomic_witness:
  "theta_steps_per_rev (loop 16 (\<lambda>i. 0) (Some ''config,4,2,2,2,0,15.5,8'') (power_on example_env)) = 4
   \<and> center_distance_cm (loop 16 (\<lambda>i. 0) (Some ''config,4,2,2,2,0,15.5,8'') (power_on example_env)) = 31 / 2
   \<and> theta_steps_per_rev (loop 16 (\<lambda>i. 0) (Some ''CONFIG,4,2,0,2,0,15.5,8'') (power_on example_env)) = 200"
proof -
  have a1: "startsWith (toUpperCase (trim ''config,4,2,2,2,0,15.5,8'')) ''CONFIG,''"
    by (simp add: string_eval)
  have p1: "parseConfig 16 (\<lambda>i. 0) (toUpperCase (trim ''config,4,2,2,2,0,15.5,8'')) =
              ((\<lambda>i. 0)(0 := 4, Suc 0 := 2, Suc (Suc 0) := 2, Suc (Suc (Suc 0)) := 2,
                 Suc (Suc (Suc (Suc 0))) := 0), 31 / 2, 8)"
    by (simp add: parseConfig_def config_ints.simps config_tail_def parse_eval string_eval wrap_def)
  have a2: "startsWith (toUpperCase (trim ''CONFIG,4,2,0,2,0,15.5,8'')) ''CONFIG,''"
    by (simp add: string_eval)
  have p2: "parseConfig 16 (\<lambda>i. 0) (toUpperCase (trim ''CONFIG,4,2,0,2,0,15.5,8'')) =
              ((\<lambda>i. 0)(0 := 4, Suc 0 := 2, Suc (Suc 0) := 0, Suc (Suc (Suc 0)) := 2,
                 Suc (Suc (Suc (Suc 0))) := 0), 31 / 2, 8)"
    by (simp add: parseConfig_def config_ints.simps config_tail_def parse_eval string_eval wrap_def)
  show ?thesis
    using config_atomic[OF a1 p1, of "power_on example_env"]
      config_atomic[OF a2 p2, of "power_on example_env"]
    by (auto simp: config_accepts_def power_on_def)
qed


section \<open>The vertical lift\<close>

lemma moveToTop_from_eq:
  "moveToTop_from i tot s =
     s\<lparr>pin_log := pin_log s @
        concat (replicate (nat (tot - i)) (pulses Z_STEP_PIN (nat (z_steps_per_layer s))))\<rparr>"
proof (induction i tot s rule: moveToTop_from.induct)
  case (1 i tot s)
  show ?case
  proof (cases "i < tot")
    case True
    then show ?thesis
      using 1[OF True]
      by (subst moveToTop_from.simps) (simp add: nat_diff_step rotateMotorZ_eq)
  next
    case False
    then show ?thesis
      by (subst moveToTop_from.simps) simp
  qed
qed

lemma returnToHome_from_eq:
  "returnToHome_from i tot s =
     s\<lparr>pin_log := pin_log s @
        concat (replicate (nat (tot - i)) (pulses Z_STEP_PIN (nat (z_steps_per_layer s))))\<rparr>"
proof (induction i tot s rule: returnToHome_from.induct)
  case (1 i tot s)
  show ?case
  proof (cases "i < tot")
    case True
    then show ?thesis
      using 1[OF True]
      by (subst returnToHome_from.simps) (simp add: nat_diff_step rotateMotorZ_eq)
  next
    case False
    then show ?thesis
      by (subst returnToHome_from.simps) simp
  qed
qed

definition totalZSteps :: "nat \<Rightarrow> scanner \<Rightarrow> int" where
  "totalZSteps w s = c_div w (c_mul w (z_travel_mm s) (z_steps_per_mm s)) (z_steps_per_layer s)"

definition z_travel_pulses :: "nat \<Rightarrow> scanner \<Rightarrow> hw_event list" where
  "z_travel_pulses w s =
     concat (replicate (nat (totalZSteps w s)) (pulses Z_STEP_PIN (nat (z_steps_per_layer s))))"

lemma moveToTop_eq:
  "moveToTop w s = s\<lparr>pin_log := pin_log s @ DigitalWrite Z_DIR_PIN LOW # z_travel_pulses w s\<rparr>"
  by (simp add: moveToTop_def Let_def moveToTop_from_eq digitalWrite_def z_travel_pulses_def
        totalZSteps_def)

lemma returnToHome_eq:
  "returnToHome w s =
     s\<lparr>pin_log := pin_log s @ DigitalWrite Z_DIR_PIN HIGH # z_travel_pulses w s
                      @ [DigitalWrite Z_DIR_PIN LOW]\<rparr>"
  by (simp add: returnToHome_def Let_def returnToHome_from_eq digitalWrite_def z_travel_pulses_def
        totalZSteps_def)

text \<open>The Z axis as the stepper driver sees the pins: the level of the DIR pin, the level
  of the STEP pin, and the position in steps. A rising edge of STEP moves one step, up
  when DIR is LOW and down when DIR is HIGH.\<close>

record z_axis =
  z_dir :: bool
  z_step :: bool
  z_pos :: int

definition z_event :: "z_axis \<Rightarrow> hw_event \<Rightarrow> z_axis" where
  "z_event a e =
     (case e of
        PinMode p \<Rightarrow> a
      | DigitalWrite p v \<Rightarrow>
          if p = Z_DIR_PIN then a\<lparr>z_dir := v\<rparr>
          else if p = Z_STEP_PIN then
            a\<lparr>z_step := v,
              z_pos := (if v \<and> \<not> z_step a then (if z_dir a then z_pos a - 1 else z_pos a + 1)
                        else z_pos a)\<rparr>
          else a)"

definition z_track :: "z_axis \<Rightarrow> hw_event list \<Rightarrow> z_axis" where
  "z_track a es = foldl z_event a es"

lemma z_track_Nil: "z_track a [] = a"
  by (simp add: z_track_def)

lemma z_track_Cons: "z_track a (e # es) = z_track (z_event a e) es"
  by (simp add: z_track_def)

lemma z_track_append: "z_track a (es @ fs) = z_track (z_track a es) fs"
  by (simp add: z_track_def)

lemma z_track_pulses:
  "z_track a (pulses Z_STEP_PIN n) =
     (if n = 0 then a
      else a\<lparr>z_step := True, z_pos := (if z_dir a then z_pos a - int n else z_pos a + int n)\<rparr>)"
proof (induction n arbitrary: a)
  case 0
  then show ?case by (simp add: pulses_0 z_track_def)
next
  case (Suc n)
  have "z_track a (pulses Z_STEP_PIN (Suc n)) =
        z_track (z_event (z_event a (DigitalWrite Z_STEP_PIN LOW)) (DigitalWrite Z_STEP_PIN HIGH))
          (pulses Z_STEP_PIN n)"
    by (simp add: pulses_Suc z_track_def)
  then show ?case
    by (simp add: Suc z_event_def)
qed

lemma z_track_pulse_blocks:
  "z_track a (concat (replicate m (pulses Z_STEP_PIN n))) =
     (if m = 0 \<or> n = 0 then a
      else a\<lparr>z_step := True,
             z_pos := (if z_dir a then z_pos a - int (m * n) else z_pos a + int (m * n))\<rparr>)"
proof (induction m arbitrary: a)
  case 0
  then show ?case by (simp add: z_track_def)
next
  case (Suc m)
  show ?case
    by (cases "n = 0") (simp_all add: z_track_append z_track_pulses z_track_Nil Suc pulses_0 algebra_simps)
qed


lemma loop_HOME:
  "loop w u (Some ''HOME'') s = serial_println (Str ''HOME_COMPLETE'') (returnToHome w s)"
  by (simp add: loop_def string_eval)

lemma loop_MOVE_TO_TOP:
  "loop w u (Some ''MOVE_TO_TOP'') s =
     serial_println (Str ''MOVE_TO_TOP_COMPLETE'')
       (moveToTop w (serial_println (Str ''Moving to top position...'') s))"
  by (simp add: loop_def string_eval)

lemma z_travel_pulses_cong:
  "z_travel_mm s' = z_travel_mm s \<Longrightarrow> z_steps_per_mm s' = z_steps_per_mm s \<Longrightarrow>
   z_steps_per_layer s' = z_steps_per_layer s \<Longrightarrow> z_travel_pulses w s' = z_travel_pulses w s"
  by (simp add: z_travel_pulses_def totalZSteps_def)

text \<open>
  Claim C7. \<^verbatim>\<open>moveToTop\<close> writes DIR LOW and then
  \<open>(z_travel_mm * z_steps_per_mm) / z_steps_per_layer\<close> blocks of \<open>z_steps_per_layer\<close>
  pulses on the Z STEP pin; \<^verbatim>\<open>returnToHome\<close> writes DIR HIGH, the same pulses for
  the same configuration, and DIR LOW. So a MOVE_TO_TOP command followed by a HOME
  command leaves the Z axis where it was, whatever the pins did before.
\<close>

theorem z_round_trip:
  assumes "0 < z_steps_per_layer s"
  shows "pin_log (moveToTop w s) = pin_log s @ DigitalWrite Z_DIR_PIN LOW # z_travel_pulses w s
       \<and> pin_log (returnToHome w s) =
           pin_log s @ DigitalWrite Z_DIR_PIN HIGH # z_travel_pulses w s
             @ [DigitalWrite Z_DIR_PIN LOW]
       \<and> z_travel_pulses w s =
           concat (replicate (nat (c_div w (c_mul w (z_travel_mm s) (z_steps_per_mm s))
                                     (z_steps_per_layer s)))
                     (pulses Z_STEP_PIN (nat (z_steps_per_layer s))))
       \<and> z_pos (z_track a (pin_log (loop w u (Some ''HOME'') (loop w u (Some ''MOVE_TO_TOP'') s))))
           = z_pos (z_track a (pin_log s))"
proof -
  define s1 where "s1 = loop w u (Some ''MOVE_TO_TOP'') s"
  have p1: "pin_log s1 = pin_log s @ DigitalWrite Z_DIR_PIN LOW # z_travel_pulses w s"
    by (simp add: s1_def loop_MOVE_TO_TOP moveToTop_eq serial_println_def z_travel_pulses_def
          totalZSteps_def)
  have c1: "z_travel_pulses w s1 = z_travel_pulses w s"
    by (rule z_travel_pulses_cong)
       (simp_all add: s1_def loop_MOVE_TO_TOP moveToTop_eq serial_println_def)
  have p2: "pin_log (loop w u (Some ''HOME'') s1) =
            pin_log s1 @ DigitalWrite Z_DIR_PIN HIGH # z_travel_pulses w s1
              @ [DigitalWrite Z_DIR_PIN LOW]"
    by (simp add: loop_HOME returnToHome_eq serial_println_def)
  define b where "b = z_track a (pin_log s)"
  define m where "m = nat (totalZSteps w s)"
  define n where "n = nat (z_steps_per_layer s)"
  have zp: "z_travel_pulses w s = concat (replicate m (pulses Z_STEP_PIN n))"
    by (simp add: z_travel_pulses_def m_def n_def)
  have "z_pos (z_track a (pin_log (loop w u (Some ''HOME'') s1))) = z_pos b"
    unfolding p2 p1 c1 zp
    by (simp add: z_track_append z_track_Cons z_track_Nil z_track_pulse_blocks z_event_def
          b_def[symmetric])
  then show ?thesis
    by (simp add: s1_def b_def moveToTop_eq returnToHome_eq z_travel_pulses_def totalZSteps_def)
qed

theorem z_round_trip_witness:
  "0 < z_steps_per_layer (power_on example_env)
   \<and> z_pos (z_track \<lparr>z_dir = False, z_step = False, z_pos = 0\<rparr>
        (pin_log (loop 32 (\<lambda>i. 0) (Some ''HOME'')
           (loop 32 (\<lambda>i. 0) (Some ''MOVE_TO_TOP'') (power_on example_env))))) = 0"
proof -
  have h: "0 < z_steps_per_layer (power_on example_env)"
    by (simp add: power_on_def)
  have e: "pin_log (power_on example_env) = []"
    by (simp add: power_on_def)
  show ?thesis
    using z_round_trip[OF h, of 32 "\<lparr>z_dir = False, z_step = False, z_pos = 0\<rparr>" "\<lambda>i. 0"] h
    by (simp add: e z_track_Nil)
qed

section \<open>Closed forms of the scanning loops\<close>

text \<open>
  What \<^verbatim>\<open>resumeScan\<close> prints and writes, as lists: a row of points for one turn, the
  rows of all layers with the delimiter lines between them, and the pulses that go
  with them. Inside \<^verbatim>\<open>resumeScan\<close> nothing reads the serial port, so \<open>scanning\<close> and
  \<open>paused\<close> keep the values they had on entry.
\<close>

definition theta_inc :: "nat \<Rightarrow> int \<Rightarrow> int \<Rightarrow> int" where
  "theta_inc w theta c = c_mod (c_add w c 1) theta"

definition steps_this_point :: "nat \<Rightarrow> int \<Rightarrow> int \<Rightarrow> int \<Rightarrow> int" where
  "steps_this_point w spp rem step = (if step < rem then c_add w spp 1 else spp)"

definition row_points ::
  "(nat \<Rightarrow> 16 word \<times> bool) \<Rightarrow> int \<Rightarrow> int \<Rightarrow> int \<Rightarrow> nat \<Rightarrow> nat \<Rightarrow> serial_item list" where
  "row_points env theta layer step r0 n =
     concat (map (\<lambda>i. point_line layer (step + int i) (readVL53L0X (env (r0 + i)))
                         (angle_of (step + int i) theta)) [0..<n])"

definition row_pulses :: "nat \<Rightarrow> int \<Rightarrow> int \<Rightarrow> int \<Rightarrow> nat \<Rightarrow> hw_event list" where
  "row_pulses w spp rem step n =
     concat (map (\<lambda>i. pulses X_STEP_PIN (nat (steps_this_point w spp rem (step + int i))))
               [0..<n])"

lemma concat_map_upt_Suc:
  "concat (map f [0..<Suc n]) = f 0 @ concat (map (\<lambda>i. f (Suc i)) [0..<n])"
proof -
  have "[0..<Suc n] = 0 # map Suc [0..<n]"
    by (simp add: upt_conv_Cons map_Suc_upt del: upt_Suc)
  then show ?thesis
    by (simp add: comp_def del: upt_Suc)
qed

lemma row_points_0: "row_points env theta layer step r0 0 = []"
  by (simp add: row_points_def)

lemma row_points_Suc:
  "row_points env theta layer step r0 (Suc n) =
     point_line layer step (readVL53L0X (env r0)) (angle_of step theta)
       @ row_points env theta layer (step + 1) (Suc r0) n"
  unfolding row_points_def concat_map_upt_Suc
  by (simp add: add.assoc add.commute add.left_commute)

lemma row_pulses_0: "row_pulses w spp rem step 0 = []"
  by (simp add: row_pulses_def)

lemma row_pulses_Suc:
  "row_pulses w spp rem step (Suc n) =
     pulses X_STEP_PIN (nat (steps_this_point w spp rem step)) @ row_pulses w spp rem (step + 1) n"
  unfolding row_pulses_def concat_map_upt_Suc
  by (simp add: add.assoc add.commute add.left_commute)

lemma print_point_eq:
  "print_point layer step distance angle s =
     s\<lparr>serial_out := serial_out s @ point_line layer step distance angle\<rparr>"
  by (simp add: print_point_def point_line_def serial_print_def serial_println_def)

lemma resumeScan_steps_stop:
  "\<not> step < theta_steps_per_rev s \<Longrightarrow> resumeScan_steps w spp rem layer step s = s"
  by (subst resumeScan_steps.simps) simp

lemma resumeScan_steps_step:
  assumes "scanning s" "\<not> paused s" "step < theta_steps_per_rev s"
  shows "resumeScan_steps w spp rem layer step s =
         resumeScan_steps w spp rem layer (step + 1)
           (s\<lparr>current_theta_step := theta_inc w (theta_steps_per_rev s) (current_theta_step s),
              serial_out := serial_out s @
                point_line layer step (readVL53L0X (sensor_env s (sensor_reads s)))
                  (angle_of step (theta_steps_per_rev s)),
              pin_log := pin_log s @ pulses X_STEP_PIN (nat (steps_this_point w spp rem step)),
              sensor_reads := Suc (sensor_reads s)\<rparr>)"
  using assms
  by (subst resumeScan_steps.simps, cases s)
     (simp add: Let_def rotateMotorX_eq sensor_poll_def print_point_eq theta_inc_def
        steps_this_point_def)

lemma resumeScan_steps_eq:
  assumes "scanning s" "\<not> paused s" "n = nat (theta_steps_per_rev s - step)"
  shows "resumeScan_steps w spp rem layer step s =
     s\<lparr>current_theta_step :=
          (theta_inc w (theta_steps_per_rev s) ^^ n) (current_theta_step s),
       serial_out := serial_out s @
          row_points (sensor_env s) (theta_steps_per_rev s) layer step (sensor_reads s) n,
       pin_log := pin_log s @ row_pulses w spp rem step n,
       sensor_reads := sensor_reads s + n\<rparr>"
  using assms
proof (induction n arbitrary: step s)
  case 0
  then have "\<not> step < theta_steps_per_rev s" by simp
  then show ?case
    by (simp add: resumeScan_steps_stop row_points_0 row_pulses_0)
next
  case (Suc n)
  then have lt: "step < theta_steps_per_rev s" by simp
  define s' where "s' = s\<lparr>current_theta_step := theta_inc w (theta_steps_per_rev s) (current_theta_step s),
              serial_out := serial_out s @
                point_line layer step (readVL53L0X (sensor_env s (sensor_reads s)))
                  (angle_of step (theta_steps_per_rev s)),
              pin_log := pin_log s @ pulses X_STEP_PIN (nat (steps_this_point w spp rem step)),
              sensor_reads := Suc (sensor_reads s)\<rparr>"
  have n: "n = nat (theta_steps_per_rev s' - (step + 1))"
    using Suc.prems(3) by (simp add: s'_def)
  have "resumeScan_steps w spp rem layer step s = resumeScan_steps w spp rem layer (step + 1) s'"
    unfolding s'_def using Suc.prems(1,2) lt by (rule resumeScan_steps_step)
  also have "\<dots> = s'\<lparr>current_theta_step :=
          (theta_inc w (theta_steps_per_rev s') ^^ n) (current_theta_step s'),
       serial_out := serial_out s' @
          row_points (sensor_env s') (theta_steps_per_rev s') layer (step + 1) (sensor_reads s') n,
       pin_log := pin_log s' @ row_pulses w spp rem (step + 1) n,
       sensor_reads := sensor_reads s' + n\<rparr>"
    by (rule Suc.IH) (use Suc.prems n in \<open>simp_all add: s'_def\<close>)
  finally show ?case
    by (simp add: s'_def row_points_Suc row_pulses_Suc funpow_swap1)
qed

definition delimiter_line :: "serial_item list" where
  "delimiter_line = [IntDec DATA_DELIMITER, Newline]"

definition layer_down :: "int \<Rightarrow> hw_event list" where
  "layer_down zspl =
     DigitalWrite Z_DIR_PIN HIGH # pulses Z_STEP_PIN (nat zspl) @ [DigitalWrite Z_DIR_PIN LOW]"

definition layers_out ::
  "(nat \<Rightarrow> 16 word \<times> bool) \<Rightarrow> int \<Rightarrow> int \<Rightarrow> int \<Rightarrow> nat \<Rightarrow> nat \<Rightarrow> serial_item list" where
  "layers_out env theta bound layer r0 m =
     concat (map (\<lambda>j. row_points env theta (layer + int j) 0 (r0 + j * nat theta) (nat theta)
                         @ (if layer + int j < bound then delimiter_line else []))
               [0..<m])"

definition layers_pulses ::
  "nat \<Rightarrow> int \<Rightarrow> int \<Rightarrow> int \<Rightarrow> int \<Rightarrow> int \<Rightarrow> int \<Rightarrow> nat \<Rightarrow> hw_event list" where
  "layers_pulses w spp rem theta zspl bound layer m =
     concat (map (\<lambda>j. row_pulses w spp rem 0 (nat theta)
                         @ (if layer + int j < bound then layer_down zspl else []))
               [0..<m])"

lemma layers_out_0: "layers_out env theta bound layer r0 0 = []"
  by (simp add: layers_out_def)

lemma layers_out_Suc:
  "layers_out env theta bound layer r0 (Suc m) =
     row_points env theta layer 0 r0 (nat theta)
       @ (if layer < bound then delimiter_line else [])
       @ layers_out env theta bound (layer + 1) (r0 + nat theta) m"
  unfolding layers_out_def concat_map_upt_Suc
  by (simp add: add.assoc add.commute add.left_commute)

lemma layers_pulses_0: "layers_pulses w spp rem theta zspl bound layer 0 = []"
  by (simp add: layers_pulses_def)

lemma layers_pulses_Suc:
  "layers_pulses w spp rem theta zspl bound layer (Suc m) =
     row_pulses w spp rem 0 (nat theta)
       @ (if layer < bound then layer_down zspl else [])
       @ layers_pulses w spp rem theta zspl bound (layer + 1) m"
  unfolding layers_pulses_def concat_map_upt_Suc
  by (simp add: add.assoc add.commute add.left_commute)

lemma resumeScan_layers_stop:
  "\<not> layer < zLayers \<Longrightarrow> resumeScan_layers w zLayers sl ss spp rem layer s = s"
  by (subst resumeScan_layers.simps) simp

text \<open>One round of the outer loop, when the round starts at step 0.\<close>

definition scan_layer :: "nat \<Rightarrow> int \<Rightarrow> int \<Rightarrow> int \<Rightarrow> int \<Rightarrow> scanner \<Rightarrow> scanner" where
  "scan_layer w spp rem bound layer s =
     s\<lparr>current_theta_step :=
          (theta_inc w (theta_steps_per_rev s) ^^ nat (theta_steps_per_rev s))
            (current_theta_step s),
       serial_out := serial_out s @
          row_points (sensor_env s) (theta_steps_per_rev s) layer 0 (sensor_reads s)
            (nat (theta_steps_per_rev s))
          @ (if layer < bound then delimiter_line else []),
       pin_log := pin_log s @ row_pulses w spp rem 0 (nat (theta_steps_per_rev s))
          @ (if layer < bound then layer_down (z_steps_per_layer s) else []),
       sensor_reads := sensor_reads s + nat (theta_steps_per_rev s)\<rparr>"

lemma resumeScan_layers_step:
  assumes "scanning s" "\<not> paused s" "layer < zLayers" "ss = 0 \<or> layer \<noteq> sl"
  shows "resumeScan_layers w zLayers sl ss spp rem layer s =
         resumeScan_layers w zLayers sl ss spp rem (layer + 1)
           (scan_layer w spp rem (c_sub w zLayers 1) layer s)"
proof -
  have st: "(if layer = sl then ss else 0) = 0"
    using assms(4) by auto
  have row: "resumeScan_steps w spp rem layer 0 s =
     s\<lparr>current_theta_step :=
          (theta_inc w (theta_steps_per_rev s) ^^ nat (theta_steps_per_rev s))
            (current_theta_step s),
       serial_out := serial_out s @
          row_points (sensor_env s) (theta_steps_per_rev s) layer 0 (sensor_reads s)
            (nat (theta_steps_per_rev s)),
       pin_log := pin_log s @ row_pulses w spp rem 0 (nat (theta_steps_per_rev s)),
       sensor_reads := sensor_reads s + nat (theta_steps_per_rev s)\<rparr>"
    using assms(1,2) by (rule resumeScan_steps_eq) simp
  define s1 where "s1 = resumeScan_steps w spp rem layer 0 s"
  have f: "scanning s1" "\<not> paused s1"
    using assms(1,2) by (simp_all add: s1_def row)
  have "resumeScan_layers w zLayers sl ss spp rem layer s =
        resumeScan_layers w zLayers sl ss spp rem (layer + 1)
          (if layer < c_sub w zLayers 1
           then serial_println (IntDec DATA_DELIMITER)
                  (digitalWrite Z_DIR_PIN LOW
                    (rotateMotorZ (z_steps_per_layer s1) (digitalWrite Z_DIR_PIN HIGH s1)))
           else s1)"
    using assms(1,2,3) f
    by (subst resumeScan_layers.simps)
       (simp add: st s1_def[symmetric] Let_def rotateMotorZ_eq digitalWrite_def
          serial_println_def)
  also have "(if layer < c_sub w zLayers 1
           then serial_println (IntDec DATA_DELIMITER)
                  (digitalWrite Z_DIR_PIN LOW
                    (rotateMotorZ (z_steps_per_layer s1) (digitalWrite Z_DIR_PIN HIGH s1)))
           else s1) = scan_layer w spp rem (c_sub w zLayers 1) layer s"
    unfolding s1_def row
    by (cases s)
       (simp add: scan_layer_def rotateMotorZ_eq digitalWrite_def serial_println_def
          delimiter_line_def layer_down_def)
  finally show ?thesis .
qed


lemma funpow_rounds: "(f ^^ (m * n)) ((f ^^ n) c) = (f ^^ (Suc m * n)) c"
proof -
  have "Suc m * n = m * n + n" by simp
  then show ?thesis by (simp only: funpow_add comp_def)
qed

lemma rounds_count: "n + m * n = Suc m * n" for n m :: nat
  by simp

lemma resumeScan_layers_eq:
  assumes "scanning s" "\<not> paused s" "ss = 0 \<or> sl < layer" "m = nat (zLayers - layer)"
  shows "resumeScan_layers w zLayers sl ss spp rem layer s =
     s\<lparr>current_theta_step :=
          (theta_inc w (theta_steps_per_rev s) ^^ (m * nat (theta_steps_per_rev s)))
            (current_theta_step s),
       serial_out := serial_out s @
          layers_out (sensor_env s) (theta_steps_per_rev s) (c_sub w zLayers 1) layer
            (sensor_reads s) m,
       pin_log := pin_log s @
          layers_pulses w spp rem (theta_steps_per_rev s) (z_steps_per_layer s)
            (c_sub w zLayers 1) layer m,
       sensor_reads := sensor_reads s + m * nat (theta_steps_per_rev s)\<rparr>"
  using assms
proof (induction m arbitrary: layer s)
  case 0
  then have "\<not> layer < zLayers" by simp
  then show ?case
    by (simp add: resumeScan_layers_stop layers_out_0 layers_pulses_0)
next
  case (Suc m)
  then have lt: "layer < zLayers" by simp
  define s' where "s' = scan_layer w spp rem (c_sub w zLayers 1) layer s"
  have fr: "scanning s'" "\<not> paused s'" "theta_steps_per_rev s' = theta_steps_per_rev s"
    "z_steps_per_layer s' = z_steps_per_layer s" "sensor_env s' = sensor_env s"
    using Suc.prems(1,2) by (simp_all add: s'_def scan_layer_def)
  have "resumeScan_layers w zLayers sl ss spp rem layer s =
        resumeScan_layers w zLayers sl ss spp rem (layer + 1) s'"
    unfolding s'_def using Suc.prems(1,2) lt
    by (rule resumeScan_layers_step) (use Suc.prems(3) in auto)
  also have "\<dots> = s'\<lparr>current_theta_step :=
          (theta_inc w (theta_steps_per_rev s') ^^ (m * nat (theta_steps_per_rev s')))
            (current_theta_step s'),
       serial_out := serial_out s' @
          layers_out (sensor_env s') (theta_steps_per_rev s') (c_sub w zLayers 1) (layer + 1)
            (sensor_reads s') m,
       pin_log := pin_log s' @
          layers_pulses w spp rem (theta_steps_per_rev s') (z_steps_per_layer s')
            (c_sub w zLayers 1) (layer + 1) m,
       sensor_reads := sensor_reads s' + m * nat (theta_steps_per_rev s')\<rparr>"
    by (rule Suc.IH) (use fr Suc.prems in auto)
  finally have e: "resumeScan_layers w zLayers sl ss spp rem layer s =
       s'\<lparr>current_theta_step :=
          (theta_inc w (theta_steps_per_rev s') ^^ (m * nat (theta_steps_per_rev s')))
            (current_theta_step s'),
       serial_out := serial_out s' @
          layers_out (sensor_env s') (theta_steps_per_rev s') (c_sub w zLayers 1) (layer + 1)
            (sensor_reads s') m,
       pin_log := pin_log s' @
          layers_pulses w spp rem (theta_steps_per_rev s') (z_steps_per_layer s')
            (c_sub w zLayers 1) (layer + 1) m,
       sensor_reads := sensor_reads s' + m * nat (theta_steps_per_rev s')\<rparr>" .
  show ?case
    unfolding e fr
    by (rule scanner.equality)
       (simp_all add: s'_def scan_layer_def layers_out_Suc layers_pulses_Suc funpow_rounds
          rounds_count del: mult_Suc)
qed

definition scan_last :: "nat \<Rightarrow> scanner \<Rightarrow> int" where
  "scan_last w s = c_sub w (totalZSteps w s) 1"

definition steps_per_point_of :: "nat \<Rightarrow> scanner \<Rightarrow> int" where
  "steps_per_point_of w s = c_div w (steps_per_rev s) (theta_steps_per_rev s)"

definition remainder_of :: "scanner \<Rightarrow> int" where
  "remainder_of s = c_mod (steps_per_rev s) (theta_steps_per_rev s)"

lemma resumeScan_eq:
  assumes "scanning s" "\<not> paused s" "paused_layer s = 0" "paused_step s = 0"
  shows "resumeScan w s =
     s\<lparr>current_theta_step :=
          (theta_inc w (theta_steps_per_rev s)
             ^^ (nat (totalZSteps w s) * nat (theta_steps_per_rev s)))
            (current_theta_step s),
       serial_out := serial_out s
          @ [Str ''Resuming: Moving to top position...'', Newline]
          @ layers_out (sensor_env s) (theta_steps_per_rev s) (scan_last w s) 0
              (sensor_reads s) (nat (totalZSteps w s)),
       pin_log := pin_log s
          @ DigitalWrite Z_DIR_PIN LOW # z_travel_pulses w s
          @ layers_pulses w (steps_per_point_of w s) (remainder_of s) (theta_steps_per_rev s)
              (z_steps_per_layer s) (scan_last w s) 0 (nat (totalZSteps w s))
          @ DigitalWrite Z_DIR_PIN HIGH # z_travel_pulses w s @ [DigitalWrite Z_DIR_PIN LOW],
       sensor_reads :=
          sensor_reads s + nat (totalZSteps w s) * nat (theta_steps_per_rev s)\<rparr>"
proof -
  define s1 where
    "s1 = moveToTop w (serial_println (Str ''Resuming: Moving to top position...'') s)"
  have s1: "s1 = s\<lparr>serial_out := serial_out s @ [Str ''Resuming: Moving to top position...'', Newline],
                   pin_log := pin_log s @ DigitalWrite Z_DIR_PIN LOW # z_travel_pulses w s\<rparr>"
    by (cases s)
       (simp add: s1_def moveToTop_eq serial_println_def z_travel_pulses_def totalZSteps_def)
  have fr: "scanning s1" "\<not> paused s1"
    using assms(1,2) by (simp_all add: s1)
  define s2 where
    "s2 = resumeScan_layers w (totalZSteps w s) 0 0 (steps_per_point_of w s) (remainder_of s) 0 s1"
  have s2: "s2 = s1\<lparr>current_theta_step :=
          (theta_inc w (theta_steps_per_rev s1)
             ^^ (nat (totalZSteps w s) * nat (theta_steps_per_rev s1)))
            (current_theta_step s1),
       serial_out := serial_out s1 @
          layers_out (sensor_env s1) (theta_steps_per_rev s1) (c_sub w (totalZSteps w s) 1) 0
            (sensor_reads s1) (nat (totalZSteps w s)),
       pin_log := pin_log s1 @
          layers_pulses w (steps_per_point_of w s) (remainder_of s) (theta_steps_per_rev s1)
            (z_steps_per_layer s1) (c_sub w (totalZSteps w s) 1) 0 (nat (totalZSteps w s)),
       sensor_reads := sensor_reads s1 + nat (totalZSteps w s) * nat (theta_steps_per_rev s1)\<rparr>"
    unfolding s2_def using fr by (rule resumeScan_layers_eq) simp_all
  have r0: "resumeScan w s = (if scanning s2 \<and> \<not> paused s2 then returnToHome w s2 else s2)"
    unfolding resumeScan_def Let_def s2_def s1_def totalZSteps_def steps_per_point_of_def
      remainder_of_def
    using assms(3,4) by (simp add: moveToTop_eq serial_println_def)
  have "scanning s2" "\<not> paused s2"
    using fr by (simp_all add: s2)
  with r0 have r: "resumeScan w s = returnToHome w s2"
    by simp
  show ?thesis
    unfolding r returnToHome_eq
    by (rule scanner.equality)
       (simp_all add: s2 s1 z_travel_pulses_def totalZSteps_def scan_last_def)
qed

section \<open>Facts about the integer operations\<close>

lemma half_double: "1 \<le> w \<Longrightarrow> (2::int) ^ w = 2 * 2 ^ (w - 1)"
  by (cases w) simp_all

lemma wrap_id: "1 \<le> w \<Longrightarrow> in_range w x \<Longrightarrow> wrap w x = x"
  unfolding wrap_def in_range_def
  by (simp add: half_double mod_pos_pos_trivial)

lemma in_range_wrap: "1 \<le> w \<Longrightarrow> in_range w (wrap w x)"
proof -
  assume w: "1 \<le> w"
  have "0 \<le> (x + 2 ^ (w - 1)) mod 2 ^ w" "(x + 2 ^ (w - 1)) mod 2 ^ w < (2::int) ^ w"
    by simp_all
  then show ?thesis
    unfolding wrap_def in_range_def using half_double[OF w] by linarith
qed

lemma pow15_le: "16 \<le> w \<Longrightarrow> (32768::int) \<le> 2 ^ (w - 1)"
proof -
  assume "16 \<le> w"
  then have "(2::int) ^ 15 \<le> 2 ^ (w - 1)"
    by (intro power_increasing) simp_all
  then show ?thesis by simp
qed

lemma in_range_small: "16 \<le> w \<Longrightarrow> - 32768 \<le> x \<Longrightarrow> x \<le> 32767 \<Longrightarrow> in_range w x"
  using pow15_le[of w] by (simp add: in_range_def)

lemma c_mod_bounds: "0 < b \<Longrightarrow> - b < c_mod a b \<and> c_mod a b < b"
proof -
  assume b: "0 < b"
  then have "0 \<le> \<bar>a\<bar> mod \<bar>b\<bar>" "\<bar>a\<bar> mod \<bar>b\<bar> < b"
    by simp_all
  then show ?thesis
    unfolding c_mod_def by (cases "a < 0"; cases "a = 0") (simp_all add: sgn_if)
qed

lemma c_mod_nonneg: "0 \<le> a \<Longrightarrow> 0 < b \<Longrightarrow> c_mod a b = a mod b"
  by (simp add: c_mod_def sgn_if)

section \<open>Reachable states\<close>

text \<open>
  \<open>state_ok\<close> holds after \<open>setup_sketch\<close> and is kept by every round of \<open>loop\<close>
  (\<open>state_ok_setup\<close>, \<open>state_ok_loop\<close>), for every \<^verbatim>\<open>int\<close> of at least 16 bits.
  In particular no reachable state divides by zero.
\<close>

definition config_ok :: "nat \<Rightarrow> scanner \<Rightarrow> bool" where
  "config_ok w s \<longleftrightarrow>
     MIN_THETA_STEPS_PER_REV \<le> theta_steps_per_rev s
   \<and> theta_steps_per_rev s \<le> MAX_THETA_STEPS_PER_REV
   \<and> theta_steps_per_rev s \<le> steps_per_rev s \<and> in_range w (steps_per_rev s)
   \<and> 0 < z_travel_mm s \<and> in_range w (z_travel_mm s)
   \<and> 0 < z_steps_per_mm s \<and> in_range w (z_steps_per_mm s)
   \<and> 0 < z_steps_per_layer s \<and> in_range w (z_steps_per_layer s)
   \<and> 0 \<le> scan_delay_ms s \<and> in_range w (scan_delay_ms s)
   \<and> 0 < center_distance_cm s"

definition state_ok :: "nat \<Rightarrow> scanner \<Rightarrow> bool" where
  "state_ok w s \<longleftrightarrow>
     16 \<le> w \<and> config_ok w s
   \<and> - 3600 < current_theta_step s \<and> current_theta_step s < 3600
   \<and> 0 \<le> scan_current_step s \<and> scan_current_step s \<le> 3600
   \<and> 0 \<le> scan_current_layer s \<and> in_range w (scan_current_layer s)
   \<and> (scanning s \<longrightarrow> scan_current_layer s + 1 < 2 ^ (w - 1))
   \<and> paused_layer s = 0 \<and> paused_step s = 0
   \<and> (scanning s \<longrightarrow> step_by_step_mode s \<and> \<not> paused s)"

definition scan_zLayers :: "nat \<Rightarrow> scanner \<Rightarrow> int" where
  "scan_zLayers w s =
     (let q = c_div w (c_mul w (z_travel_mm s) (z_steps_per_mm s)) (z_steps_per_layer s)
      in if q \<le> 0 then 1000 else q)"

lemma loop_SCAN_STEP:
  "loop w u (Some ''SCAN_STEP'') s =
     (if \<not> scanning s \<or> \<not> step_by_step_mode s
      then serial_println (Str ''ERROR: Not in step-by-step scan mode!'') s
      else performScanStep w s)"
  by (simp add: loop_def string_eval)

lemma state_ok_add1:
  assumes "16 \<le> w" "- 3600 \<le> x" "x \<le> 3600"
  shows "c_add w x 1 = x + 1" "c_sub w (x + 1) 1 = x"
proof -
  have "in_range w (x + 1)" "in_range w x"
    using assms by (auto intro: in_range_small)
  then show "c_add w x 1 = x + 1" "c_sub w (x + 1) 1 = x"
    using assms(1) by (simp_all add: c_add_def c_sub_def wrap_id)
qed

lemma layer_add1:
  assumes "16 \<le> w" "0 \<le> x" "x + 1 < 2 ^ (w - 1)"
  shows "c_add w x 1 = x + 1"
proof -
  have "in_range w (x + 1)"
    using assms by (simp add: in_range_def)
  then show ?thesis
    using assms(1) by (simp add: c_add_def wrap_id)
qed

lemma performScanStep_point:
  assumes "state_ok w s" "scan_current_step s < theta_steps_per_rev s"
  shows "performScanStep w s =
       s\<lparr>scan_current_step := scan_current_step s + 1,
         current_theta_step := c_mod (current_theta_step s + 1) (theta_steps_per_rev s),
         sensor_reads := Suc (sensor_reads s),
         pin_log := pin_log s @ DigitalWrite X_DIR_PIN LOW # pulses X_STEP_PIN 1,
         serial_out := serial_out s @
           point_line (scan_current_layer s) (scan_current_step s)
             (readVL53L0X (sensor_env s (sensor_reads s)))
             (angle_of (scan_current_step s + 1) (theta_steps_per_rev s))\<rparr>"
proof -
  have w: "16 \<le> w" using assms(1) by (simp add: state_ok_def)
  have a: "c_add w (scan_current_step s) 1 = scan_current_step s + 1"
          "c_sub w (scan_current_step s + 1) 1 = scan_current_step s"
    using assms(1) by (auto intro!: state_ok_add1 simp: state_ok_def)
  have b: "c_add w (current_theta_step s) 1 = current_theta_step s + 1"
    using assms(1) by (auto intro!: state_ok_add1 simp: state_ok_def)
  show ?thesis
    using assms(2)
    by (intro scanner.equality)
       (simp_all add: performScanStep_def Let_def rotateMotorX_eq digitalWrite_def
          sensor_poll_def print_point_eq a b)
qed

lemma performScanStep_layer:
  assumes "state_ok w s" "scanning s" "\<not> scan_current_step s < theta_steps_per_rev s"
  shows "performScanStep w s =
      (if scan_zLayers w s \<le> scan_current_layer s + 1 then
         s\<lparr>scan_current_step := 0, scan_current_layer := scan_current_layer s + 1,
           scanning := False, step_by_step_mode := False,
           serial_out := serial_out s @ [Str ''SCAN_COMPLETE'', Newline]\<rparr>
       else
         s\<lparr>scan_current_step := 0, scan_current_layer := scan_current_layer s + 1,
           pin_log := pin_log s @ DigitalWrite Z_DIR_PIN (\<not> scan_direction_up s)
                        # pulses Z_STEP_PIN (nat (z_steps_per_layer s))
                        @ [DigitalWrite Z_DIR_PIN LOW],
           serial_out := serial_out s @ [IntDec DATA_DELIMITER, Newline]\<rparr>)"
proof -
  have w: "16 \<le> w" and z: "0 < z_steps_per_layer s" and l: "0 \<le> scan_current_layer s"
    using assms(1) by (simp_all add: state_ok_def config_ok_def)
  have a: "c_add w (scan_current_layer s) 1 = scan_current_layer s + 1"
    using assms(1,2) by (auto intro!: layer_add1 simp: state_ok_def)
  show ?thesis
    using assms(3) z l
    by (intro scanner.equality)
       (simp_all add: performScanStep_def Let_def scan_zLayers_def rotateMotorZ_eq
          digitalWrite_def serial_println_def a)
qed


lemma state_ok_io:
  "state_ok w (s\<lparr>serial_out := a\<rparr>) = state_ok w s"
  "state_ok w (s\<lparr>pin_log := b\<rparr>) = state_ok w s"
  "state_ok w (s\<lparr>sensor_reads := c\<rparr>) = state_ok w s"
  by (simp_all add: state_ok_def config_ok_def)

lemma state_ok_prims:
  "state_ok w (serial_print x s) = state_ok w s"
  "state_ok w (serial_println x s) = state_ok w s"
  "state_ok w (serial_newline s) = state_ok w s"
  "state_ok w (digitalWrite p v s) = state_ok w s"
  "state_ok w (rotateMotorX n s) = state_ok w s"
  "state_ok w (rotateMotorZ n s) = state_ok w s"
  "state_ok w (moveToTop w' s) = state_ok w s"
  "state_ok w (returnToHome w' s) = state_ok w s"
  "state_ok w (snd (sensor_poll s)) = state_ok w s"
  by (simp_all add: serial_print_def serial_println_def serial_newline_def digitalWrite_def
        rotateMotorX_eq rotateMotorZ_eq moveToTop_eq returnToHome_eq sensor_poll_def
        state_ok_io)

lemma state_ok_theta:
  assumes "state_ok w s" "- 3600 < c" "c < 3600"
  shows "state_ok w (s\<lparr>current_theta_step := c\<rparr>)"
  using assms by (simp add: state_ok_def config_ok_def)

lemma theta_mod_bounds:
  assumes "state_ok w s"
  shows "- 3600 < c_mod a (theta_steps_per_rev s) \<and> c_mod a (theta_steps_per_rev s) < 3600"
proof -
  have t: "0 < theta_steps_per_rev s" "theta_steps_per_rev s \<le> 3600"
    using assms by (simp_all add: state_ok_def config_ok_def)
  from c_mod_bounds[OF t(1), of a] t(2) show ?thesis by linarith
qed

lemma state_ok_start_scan: "state_ok w s \<Longrightarrow> state_ok w (start_scan up s)"
  using pow15_le[of w]
  by (simp add: start_scan_def serial_println_def state_ok_def config_ok_def in_range_def)

lemma state_ok_stop:
  "state_ok w s \<Longrightarrow> state_ok w (s\<lparr>paused := True, scanning := False\<rparr>)"
  by (simp add: state_ok_def config_ok_def)

lemma in_range_scan_zLayers: "16 \<le> w \<Longrightarrow> in_range w (scan_zLayers w s)"
  by (auto simp: scan_zLayers_def Let_def c_div_def intro: in_range_wrap in_range_small)

lemma state_ok_performScanStep:
  assumes "state_ok w s" "scanning s"
  shows "state_ok w (performScanStep w s)"
proof (cases "scan_current_step s < theta_steps_per_rev s")
  case True
  have "theta_steps_per_rev s \<le> 3600"
    using assms(1) by (simp add: state_ok_def config_ok_def)
  with True assms theta_mod_bounds[OF assms(1), of "current_theta_step s + 1"] show ?thesis
    unfolding performScanStep_point[OF assms(1) True]
    by (simp add: state_ok_def config_ok_def)
next
  case False
  have w: "16 \<le> w" using assms(1) by (simp add: state_ok_def)
  have r: "scan_zLayers w s < 2 ^ (w - 1)"
    using in_range_scan_zLayers[OF w, of s] by (simp add: in_range_def)
  from assms r show ?thesis
    unfolding performScanStep_layer[OF assms(1,2) False]
    by (auto simp: state_ok_def config_ok_def in_range_def)
qed

lemma theta_inc_iter_bounds:
  assumes "state_ok w s" "- 3600 < c" "c < 3600"
  shows "- 3600 < (theta_inc w (theta_steps_per_rev s) ^^ k) c
       \<and> (theta_inc w (theta_steps_per_rev s) ^^ k) c < 3600"
proof (induction k)
  case 0
  then show ?case using assms by simp
next
  case (Suc k)
  then show ?case
    using theta_mod_bounds[OF assms(1)] by (simp add: theta_inc_def)
qed

lemma state_ok_resume:
  assumes "state_ok w s" "paused s"
  shows "state_ok w
     ((let s1 = serial_println (Str ''SCAN_RESUMED'') (s\<lparr>paused := False, scanning := True\<rparr>);
           s2 = resumeScan w s1;
           s3 = (if \<not> paused s2 then serial_println (Str ''SCAN_COMPLETE'') s2 else s2)
       in s3\<lparr>scanning := False\<rparr>))"
proof -
  define s1 where
    "s1 = serial_println (Str ''SCAN_RESUMED'') (s\<lparr>paused := False, scanning := True\<rparr>)"
  have f: "scanning s1" "\<not> paused s1" "paused_layer s1 = 0" "paused_step s1 = 0"
    using assms(1) by (simp_all add: s1_def serial_println_def state_ok_def)
  have b: "- 3600 < current_theta_step s1" "current_theta_step s1 < 3600"
    using assms(1) by (simp_all add: s1_def serial_println_def state_ok_def)
  have k: "state_ok w (s1\<lparr>scanning := False\<rparr>)"
    using assms(1) by (simp add: s1_def serial_println_def state_ok_def config_ok_def)
  have t: "theta_steps_per_rev (s1\<lparr>scanning := False\<rparr>) = theta_steps_per_rev s1"
    by simp
  note tb = theta_inc_iter_bounds[OF k, unfolded t, OF b]
  have "state_ok w ((resumeScan w s1)\<lparr>scanning := False\<rparr>)"
    using k tb unfolding resumeScan_eq[OF f]
    by (simp add: state_ok_def config_ok_def)
  moreover have "(serial_println x (resumeScan w s1))\<lparr>scanning := False\<rparr> =
      ((resumeScan w s1)\<lparr>scanning := False\<rparr>)\<lparr>serial_out := serial_out (resumeScan w s1) @ [x, Newline]\<rparr>" for x
    by (simp add: serial_println_def)
  ultimately show ?thesis
    unfolding Let_def s1_def[symmetric]
    by (simp add: state_ok_io)
qed

lemma in_range_toInt: "1 \<le> w \<Longrightarrow> in_range w (toInt w str)"
  by (simp add: toInt_def in_range_wrap)

lemma config_ints_range:
  "1 \<le> w \<Longrightarrow> (\<And>i. in_range w (v i)) \<Longrightarrow> in_range w (fst (config_ints w k params v) i)"
proof (induction w k params v arbitrary: i rule: config_ints.induct)
  case (1 w k params v)
  note ti = in_range_toInt[OF "1.prems"(1)]
  show ?case
  proof (cases "k < 5")
    case False
    then show ?thesis
      using "1.prems"(2) by (subst config_ints.simps) simp
  next
    case True
    show ?thesis
    proof (cases "indexOf params CHR '',''")
      case None
      then show ?thesis
        using True "1.prems"(2) ti
        by (subst config_ints.simps) simp
    next
      case (Some commaIndex)
      have "in_range w (fst (config_ints w (k + 1) (substring_from params (commaIndex + 1))
                (v(k := toInt w (take commaIndex params)))) i)"
        using True Some "1.prems"(1)
        by (rule "1.IH") (use "1.prems"(2) ti in simp)
      then show ?thesis
        using True Some by (subst config_ints.simps) simp
    qed
  qed
qed

lemma config_tail_range:
  assumes "16 \<le> w"
  shows "in_range w (snd (config_tail w params))"
proof -
  have "1 \<le> w" using assms by simp
  note t = in_range_toInt[OF this]
  have d: "in_range w 1600" using assms by (auto intro: in_range_small)
  show ?thesis
    using t d by (auto simp: config_tail_def Let_def split: option.splits)
qed

lemma parseConfig_range:
  assumes "16 \<le> w" "\<And>i. in_range w (u i)"
      and "parseConfig w u command = (v, centerDist, stepsPerRev)"
  shows "in_range w (v i)" "in_range w stepsPerRev"
proof -
  obtain v' p' where c: "config_ints w 0 (substring_from command 7) u = (v', p')"
    by (cases "config_ints w 0 (substring_from command 7) u")
  obtain cd spr where t: "config_tail w p' = (cd, spr)"
    by (cases "config_tail w p'")
  have e: "v = v'" "stepsPerRev = spr"
    using assms(3) by (simp_all add: parseConfig_def Let_def c t)
  have "1 \<le> w" using assms(1) by simp
  then have "in_range w (fst (config_ints w 0 (substring_from command 7) u) i)"
    using assms(2) by (rule config_ints_range)
  then show "in_range w (v i)" by (simp add: c e)
  from config_tail_range[OF assms(1), of p'] show "in_range w stepsPerRev"
    by (simp add: t e)
qed

lemma state_ok_config_messages:
  "state_ok w (config_error_range s) = state_ok w s"
  "state_ok w (config_error_exceed a b s) = state_ok w s"
  "state_ok w (get_config s) = state_ok w s"
  by (simp_all add: config_error_range_def config_error_exceed_def get_config_def
        state_ok_prims)

lemma state_ok_config_ok_message: "state_ok w (config_ok_message s) = state_ok w s"
  by (simp add: config_ok_message_def serial_print_def serial_println_def state_ok_io)

lemma state_ok_processConfigCommand:
  assumes "state_ok w s" "\<And>i. in_range w (u i)"
  shows "state_ok w (processConfigCommand w u command s)"
proof -
  obtain v centerDist stepsPerRev where p: "parseConfig w u command = (v, centerDist, stepsPerRev)"
    by (cases "parseConfig w u command") auto
  have w: "16 \<le> w" using assms(1) by (simp add: state_ok_def)
  note r = parseConfig_range[OF w assms(2) p]
  have upd: "4 \<le> v 0 \<Longrightarrow> v 0 \<le> 3600 \<Longrightarrow> v 0 \<le> stepsPerRev \<Longrightarrow> 0 < v 1 \<Longrightarrow> 0 < v 2 \<Longrightarrow>
        0 < v 3 \<Longrightarrow> 0 \<le> v 4 \<Longrightarrow> 0 < centerDist \<Longrightarrow>
        state_ok w (s\<lparr>theta_steps_per_rev := v 0, z_travel_mm := v 1, z_steps_per_mm := v 2,
                   z_steps_per_layer := v 3, scan_delay_ms := v 4,
                   center_distance_cm := centerDist, steps_per_rev := stepsPerRev\<rparr>)"
    using assms(1) r(1)[of 1] r(1)[of 2] r(1)[of 3] r(1)[of 4] r(2)
    by (simp add: state_ok_def config_ok_def)
  show ?thesis
    unfolding processConfigCommand_def p
    using assms(1) upd
    by (simp add: state_ok_config_messages state_ok_config_ok_message state_ok_prims)
qed

lemma state_ok_rotate:
  assumes "state_ok w s"
  shows "state_ok w (s\<lparr>current_theta_step := c_mod a (theta_steps_per_rev s)\<rparr>)"
  using assms theta_mod_bounds[OF assms, of a] by (simp add: state_ok_theta)

lemma state_ok_rotateX:
  assumes "state_ok w s"
  shows "state_ok w ((rotateMotorX n (digitalWrite p v s))
            \<lparr>current_theta_step := c_mod a (theta_steps_per_rev (rotateMotorX n (digitalWrite p v s)))\<rparr>)"
proof -
  have "state_ok w (rotateMotorX n (digitalWrite p v s))"
    using assms by (simp add: state_ok_prims)
  then show ?thesis by (rule state_ok_rotate)
qed

lemma state_ok_loop:
  assumes "state_ok w s" "\<And>i. in_range w (u i)"
  shows "state_ok w (loop w u input s)"
proof (cases input)
  case None
  then show ?thesis using assms(1) by (simp add: loop_def)
next
  case (Some line)
  have sc: "\<not> (\<not> scanning s \<or> \<not> step_by_step_mode s) \<Longrightarrow> state_ok w (performScanStep w s)"
    using assms(1) by (auto intro: state_ok_performScanStep)
  have rs: "paused s \<Longrightarrow> state_ok w
     ((let s1 = serial_println (Str ''SCAN_RESUMED'') (s\<lparr>paused := False, scanning := True\<rparr>);
           s2 = resumeScan w s1;
           s3 = (if \<not> paused s2 then serial_println (Str ''SCAN_COMPLETE'') s2 else s2)
       in s3\<lparr>scanning := False\<rparr>))"
    using assms(1) by (rule state_ok_resume)
  have cfg: "state_ok w (processConfigCommand w u c s)" for c
    using assms by (rule state_ok_processConfigCommand)
  show ?thesis
    unfolding loop_def Some option.case
    using assms(1) sc rs cfg
    by (simp add: Let_def state_ok_prims state_ok_start_scan state_ok_stop state_ok_rotateX
          state_ok_config_messages sensor_poll_def state_ok_io)
qed

lemma state_ok_power_on: "16 \<le> w \<Longrightarrow> state_ok w (power_on env)"
  using pow15_le[of w]
  by (auto simp: power_on_def state_ok_def config_ok_def intro!: in_range_small)

lemma state_ok_setup:
  assumes "16 \<le> w" "setup_sketch init_ok (power_on env) = Some s"
  shows "state_ok w s"
proof -
  have "s = banner (initMotors (serial_println (Str ''VL53L0X Initialized'') (power_on env)))"
    using assms(2) by (auto simp: setup_sketch_def initVL53L0X_def split: if_splits)
  moreover have "state_ok w (banner x) = state_ok w x" for x
    by (simp add: banner_def state_ok_prims)
  moreover have "state_ok w (initMotors x) = state_ok w x" for x
    by (simp add: initMotors_def pinMode_def state_ok_prims state_ok_io)
  ultimately show ?thesis
    using state_ok_power_on[OF assms(1)] by (simp add: state_ok_prims)
qed

section \<open>Step-by-step scanning\<close>

text \<open>
  Claim C2. A SCAN_STEP command received in a reachable state with \<open>scanning\<close> and
  \<open>step_by_step_mode\<close> set does one of three things. If
  \<open>scan_current_step < theta_steps_per_rev\<close>: one pulse on motor X (DIR LOW), the
  step counter goes up by one, \<open>current_theta_step\<close> advances modulo
  \<open>theta_steps_per_rev\<close>, the sensor is polled once and one point line is printed.
  Otherwise the step counter is reset and the layer counter goes up by one; then,
  if the new layer has reached \<open>zLayers\<close> (the quotient
  \<open>(z_travel_mm * z_steps_per_mm) / z_steps_per_layer\<close>, or 1000 when that is not
  positive), SCAN_COMPLETE is printed and both flags are cleared; else motor Z moves
  \<open>z_steps_per_layer\<close> steps in the scan direction and the line 9999 is printed.
\<close>

theorem scan_step_sequencing:
  assumes "state_ok w s" "scanning s" "step_by_step_mode s"
  shows "loop w u (Some ''SCAN_STEP'') s =
    (if scan_current_step s < theta_steps_per_rev s then
       s\<lparr>scan_current_step := scan_current_step s + 1,
         current_theta_step := c_mod (current_theta_step s + 1) (theta_steps_per_rev s),
         sensor_reads := Suc (sensor_reads s),
         pin_log := pin_log s @ DigitalWrite X_DIR_PIN LOW # pulses X_STEP_PIN 1,
         serial_out := serial_out s @
           point_line (scan_current_layer s) (scan_current_step s)
             (readVL53L0X (sensor_env s (sensor_reads s)))
             (angle_of (scan_current_step s + 1) (theta_steps_per_rev s))\<rparr>
     else if scan_zLayers w s \<le> scan_current_layer s + 1 then
       s\<lparr>scan_current_step := 0, scan_current_layer := scan_current_layer s + 1,
         scanning := False, step_by_step_mode := False,
         serial_out := serial_out s @ [Str ''SCAN_COMPLETE'', Newline]\<rparr>
     else
       s\<lparr>scan_current_step := 0, scan_current_layer := scan_current_layer s + 1,
         pin_log := pin_log s @ DigitalWrite Z_DIR_PIN (\<not> scan_direction_up s)
                      # pulses Z_STEP_PIN (nat (z_steps_per_layer s))
                      @ [DigitalWrite Z_DIR_PIN LOW],
         serial_out := serial_out s @ [IntDec DATA_DELIMITER, Newline]\<rparr>)"
proof (cases "scan_current_step s < theta_steps_per_rev s")
  case True
  with assms show ?thesis
    by (simp only: loop_SCAN_STEP performScanStep_point[OF assms(1) True] simp_thms if_False
          if_True)
next
  case False
  with assms show ?thesis
    by (simp only: loop_SCAN_STEP performScanStep_layer[OF assms(1,2) False] simp_thms
          if_False if_True)
qed

definition example_scanning :: scanner where
  "example_scanning = start_scan True (power_on example_env)"

theorem scan_step_sequencing_witness:
  "state_ok 16 example_scanning \<and> scanning example_scanning
   \<and> step_by_step_mode example_scanning
   \<and> scan_current_step (loop 16 (\<lambda>i. 0) (Some ''SCAN_STEP'') example_scanning) = 1
   \<and> current_theta_step (loop 16 (\<lambda>i. 0) (Some ''SCAN_STEP'') example_scanning) = 1
   \<and> serial_out (loop 16 (\<lambda>i. 0) (Some ''SCAN_STEP'') example_scanning) =
       [Str ''SCAN_START'', Newline] @ point_line 0 0 50 (9 / 5)
   \<and> state_ok 16 (example_scanning\<lparr>scan_current_step := 200\<rparr>)
   \<and> serial_out (loop 16 (\<lambda>i. 0) (Some ''SCAN_STEP'')
        (example_scanning\<lparr>scan_current_step := 200\<rparr>)) =
       [Str ''SCAN_START'', Newline, IntDec 9999, Newline]
   \<and> scan_current_layer (loop 16 (\<lambda>i. 0) (Some ''SCAN_STEP'')
        (example_scanning\<lparr>scan_current_step := 200\<rparr>)) = 1"
proof -
  have h1: "state_ok 16 example_scanning"
    by (simp add: example_scanning_def state_ok_start_scan state_ok_power_on)
  have h2: "scanning example_scanning" "step_by_step_mode example_scanning"
    by (simp_all add: example_scanning_def start_scan_def serial_println_def)
  have g1: "state_ok 16 (example_scanning\<lparr>scan_current_step := 200\<rparr>)"
    using h1 by (simp add: state_ok_def config_ok_def)
  have g2: "scanning (example_scanning\<lparr>scan_current_step := 200\<rparr>)"
    "step_by_step_mode (example_scanning\<lparr>scan_current_step := 200\<rparr>)"
    using h2 by simp_all
  have v: "readVL53L0X (500, False) = 50"
    by (simp add: readVL53L0X_def)
  show ?thesis
    using scan_step_sequencing[OF h1 h2, of "\<lambda>i. 0"]
      scan_step_sequencing[OF g1 g2, of "\<lambda>i. 0"] h1 h2 g1
    by (simp add: example_scanning_def start_scan_def serial_println_def power_on_def
          example_env_def v angle_of_def c_mod_def scan_zLayers_def int_eval)
qed

section \<open>Runs on concrete inputs\<close>

definition run :: "nat \<Rightarrow> (nat \<Rightarrow> int) \<Rightarrow> string list \<Rightarrow> scanner \<Rightarrow> scanner" where
  "run w u commands s = foldl (\<lambda>s c. loop w u (Some c) s) s commands"

lemma run_Nil: "run w u [] s = s"
  by (simp add: run_def)

lemma run_Cons: "run w u (c # cs) s = run w u cs (loop w u (Some c) s)"
  by (simp add: run_def)

lemmas run_eval = run_Nil run_Cons loop_def string_eval start_scan_def serial_print_def
  serial_println_def serial_newline_def digitalWrite_def rotateMotorX_eq rotateMotorZ_eq
  sensor_poll_def print_point_eq point_line_def readVL53L0X_def angle_of_def int_eval
  parse_eval

definition example_ready :: scanner where
  "example_ready = the (setup_sketch True (power_on example_env))"

definition ready_out :: "serial_item list" where
  "ready_out = serial_out example_ready"

definition ready_pins :: "hw_event list" where
  "ready_pins = pin_log example_ready"

lemma example_ready_eq:
  "example_ready =
     \<lparr>scanning = False, paused = False, scan_direction_up = True, current_theta_step = 0,
      paused_layer = 0, paused_step = 0, scan_current_layer = 0, scan_current_step = 0,
      step_by_step_mode = False, theta_steps_per_rev = 200, z_steps_per_mm = 200,
      z_travel_mm = 200, z_steps_per_layer = 400, scan_delay_ms = 50,
      center_distance_cm = 15, steps_per_rev = 1600,
      serial_out = ready_out, pin_log = ready_pins,
      sensor_env = example_env, sensor_reads = 0\<rparr>"
  unfolding ready_out_def ready_pins_def
  by (simp add: example_ready_def setup_sketch_def initVL53L0X_def banner_def
        initMotors_def pinMode_def digitalWrite_def serial_print_def serial_println_def
        power_on_def)

definition after_stop :: scanner where
  "after_stop = run 16 (\<lambda>i. 0)
     [''CONFIG,4,1,1,1,0,15,4'', ''START'', ''SCAN_STEP'', ''SCAN_STEP'', ''STOP'']
     example_ready"

lemma after_stop_eq:
  "after_stop =
     \<lparr>scanning = False, paused = True, scan_direction_up = True, current_theta_step = 2,
      paused_layer = 0, paused_step = 0, scan_current_layer = 0, scan_current_step = 2,
      step_by_step_mode = True, theta_steps_per_rev = 4, z_steps_per_mm = 1, z_travel_mm = 1,
      z_steps_per_layer = 1, scan_delay_ms = 0, center_distance_cm = 15, steps_per_rev = 4,
      serial_out = ready_out @
        [Str ''CONFIG_OK:'', Str '' theta='', IntDec 4, Str '' z_travel='', IntDec 1,
         Str ''mm z_steps/mm='', IntDec 1, Str '' z_steps/layer='', IntDec 1,
         Str '' delay='', IntDec 0, Str ''ms center='', FloatDec 15 1,
         Str ''cm steps/rev='', IntDec 4, Newline,
         Str ''SCAN_START'', Newline]
        @ point_line 0 0 50 90 @ point_line 0 1 50 180
        @ [Str ''SCAN_PAUSED'', Newline],
      pin_log = ready_pins @
        [DigitalWrite X_DIR_PIN LOW, DigitalWrite X_STEP_PIN LOW, DigitalWrite X_STEP_PIN HIGH,
         DigitalWrite X_DIR_PIN LOW, DigitalWrite X_STEP_PIN LOW, DigitalWrite X_STEP_PIN HIGH],
      sensor_env = example_env, sensor_reads = 2\<rparr>"
  unfolding after_stop_def example_ready_eq
  by (simp add: run_eval processConfigCommand_def parseConfig_def
        config_ints.simps config_ok_message_def performScanStep_def pulses_def
        example_env_def)

lemma loop_RESUME:
  "loop w u (Some ''RESUME'') s =
     (if paused s then
        let s1 = serial_println (Str ''SCAN_RESUMED'') (s\<lparr>paused := False, scanning := True\<rparr>);
            s2 = resumeScan w s1;
            s3 = (if \<not> paused s2 then serial_println (Str ''SCAN_COMPLETE'') s2 else s2)
        in s3\<lparr>scanning := False\<rparr>
      else s)"
  by (simp add: loop_def string_eval)

lemma loop_STOP:
  "loop w u (Some ''STOP'') s =
     serial_println (Str ''SCAN_PAUSED'') (s\<lparr>paused := True, scanning := False\<rparr>)"
  by (simp add: loop_def string_eval)

lemma upt_0_4: "[0..<4] = [0, 1, 2, 3]"
  by (simp add: upt_rec)

lemmas scan_eval = upt_0_4 layers_out_def layers_pulses_def row_points_def row_pulses_def
  totalZSteps_def scan_last_def steps_per_point_of_def remainder_of_def delimiter_line_def
  layer_down_def z_travel_pulses_def theta_inc_def steps_this_point_def

text \<open>
  Claim C1 (pause and resume). The claim: a STOP that pauses a scan records the pause
  position in \<open>paused_layer\<close> and \<open>paused_step\<close>, and RESUME continues from there,
  printing points only for positions not yet scanned. The code: the STOP branch of
  \<open>loop\<close> sets the two flags and nothing else. After CONFIG,4,1,1,1,0,15,4, START,
  two SCAN_STEP and STOP the scan stands at layer 0, step 2, while \<open>paused_layer\<close> and
  \<open>paused_step\<close> are both 0; RESUME then moves to the top and prints the points
  (0,0) and (0,1) a second time before (0,2) and (0,3). (In every reachable state
  \<open>paused_layer = 0\<close> and \<open>paused_step = 0\<close>: they are part of \<open>state_ok\<close>.)
\<close>

theorem stop_loses_position:
  "scan_current_layer after_stop = 0 \<and> scan_current_step after_stop = 2
   \<and> paused_layer after_stop = 0 \<and> paused_step after_stop = 0
   \<and> serial_out (loop 16 (\<lambda>i. 0) (Some ''RESUME'') after_stop) =
       serial_out after_stop
       @ [Str ''SCAN_RESUMED'', Newline, Str ''Resuming: Moving to top position...'', Newline]
       @ point_line 0 0 50 0 @ point_line 0 1 50 90 @ point_line 0 2 50 180
       @ point_line 0 3 50 270 @ [Str ''SCAN_COMPLETE'', Newline]"
  unfolding loop_RESUME after_stop_eq
  by (simp add: Let_def serial_println_def resumeScan_eq scan_eval int_eval angle_of_def
        readVL53L0X_def example_env_def point_line_def)

theorem stop_loses_position_witness:
  "paused_layer after_stop = 0 \<and> paused_step after_stop = 0 \<and> scan_current_step after_stop = 2"
  using stop_loses_position by simp

definition first_point :: scanner where
  "first_point = run 16 (\<lambda>i. 0) [''START'', ''SCAN_STEP''] example_ready"

text \<open>
  Claim C4 (point lines). The claim: on every point line the angle is
  \<open>(step mod theta_steps_per_rev) * 360 / theta_steps_per_rev\<close> for the step printed
  on that line. The lines of \<^verbatim>\<open>resumeScan\<close> are so (\<open>row_points\<close>). The lines of
  \<^verbatim>\<open>performScanStep\<close> are not: it prints \<open>scan_current_step - 1\<close> as the step and
  computes the angle from \<open>scan_current_step\<close>. The first SCAN_STEP after START
  prints step 0 with the angle of step 1, 1.8 degrees.
\<close>

theorem scan_step_angle_offset:
  "serial_out first_point =
     serial_out example_ready @ [Str ''SCAN_START'', Newline] @ point_line 0 0 50 (9 / 5)
   \<and> angle_of 0 (theta_steps_per_rev first_point) = 0
   \<and> angle_of (0 + 1) (theta_steps_per_rev first_point) = 9 / 5"
  unfolding first_point_def example_ready_eq
  by (simp add: run_eval performScanStep_def example_env_def pulses_def ready_out_def
        example_ready_eq[symmetric])

theorem scan_step_angle_offset_witness:
  "angle_of 0 (theta_steps_per_rev first_point) \<noteq> 9 / 5"
  using scan_step_angle_offset by simp

text \<open>
  Claim C8 (theta position). The claim: every command leaves \<open>current_theta_step\<close> in
  \<open>[0, theta_steps_per_rev)\<close>, also ROTATE_CCW,n with \<open>n\<close> above
  \<open>theta_steps_per_rev\<close>. The code computes
  \<^verbatim>\<open>(current_theta_step - steps + theta_steps_per_rev) % theta_steps_per_rev\<close>, and the
  remainder of a negative number is negative in C: on freshly started firmware
  ROTATE_CCW,500 gives \<open>(0 - 500 + 200) % 200 = -100\<close>, for 16-bit and for 32-bit
  \<^verbatim>\<open>int\<close> alike.
\<close>

theorem rotate_ccw_leaves_range:
  "current_theta_step example_ready = 0 \<and> theta_steps_per_rev example_ready = 200
   \<and> current_theta_step (loop 16 (\<lambda>i. 0) (Some ''ROTATE_CCW,500'') example_ready) = - 100
   \<and> current_theta_step (loop 32 (\<lambda>i. 0) (Some ''ROTATE_CCW,500'') example_ready) = - 100"
  unfolding example_ready_eq
  by (simp add: run_eval)

theorem rotate_ccw_leaves_range_witness:
  "\<not> (0 \<le> current_theta_step (loop 16 (\<lambda>i. 0) (Some ''ROTATE_CCW,500'') example_ready))"
  using rotate_ccw_leaves_range by simp

section \<open>STOP and RESUME on freshly started firmware\<close>

lemma setup_fields:
  assumes "setup_sketch init_ok (power_on env) = Some s"
  shows "scanning s = False" "paused s = False" "paused_layer s = 0" "paused_step s = 0"
    "current_theta_step s = 0" "theta_steps_per_rev s = 200" "z_steps_per_mm s = 200"
    "z_travel_mm s = 200" "z_steps_per_layer s = 400" "steps_per_rev s = 1600"
    "sensor_env s = env" "sensor_reads s = 0"
proof -
  have "s = banner (initMotors (serial_println (Str ''VL53L0X Initialized'') (power_on env)))"
    using assms by (auto simp: setup_sketch_def initVL53L0X_def split: if_splits)
  then show "scanning s = False" "paused s = False" "paused_layer s = 0" "paused_step s = 0"
    "current_theta_step s = 0" "theta_steps_per_rev s = 200" "z_steps_per_mm s = 200"
    "z_travel_mm s = 200" "z_steps_per_layer s = 400" "steps_per_rev s = 1600"
    "sensor_env s = env" "sensor_reads s = 0"
    by (simp_all add: banner_def initMotors_def pinMode_def digitalWrite_def serial_print_def
          serial_println_def power_on_def)
qed

lemma wide_int:
  assumes "40000 < (2::int) ^ (w - 1)"
  shows "1 \<le> w" "0 \<le> x \<Longrightarrow> x \<le> 40000 \<Longrightarrow> wrap w x = x"
proof -
  show w: "1 \<le> w"
  proof (rule ccontr)
    assume "\<not> 1 \<le> w"
    then have "w = 0" by simp
    with assms show False by simp
  qed
  assume "0 \<le> x" "x \<le> 40000"
  then have "in_range w x" using assms by (simp add: in_range_def)
  then show "wrap w x = x" using w by (rule wrap_id[rotated])
qed

text \<open>
  The scan that STOP and RESUME start on freshly started firmware when \<^verbatim>\<open>int\<close> can
  hold \<open>z_travel_mm * z_steps_per_mm = 40000\<close>: the move to the top, 100 layers of
  200 points (\<open>layers_out env 200 99 0 0 100\<close>) with 99 delimiter lines, the return
  home, then SCAN_COMPLETE.
\<close>

lemma full_scan_on_wide_int:
  assumes "40000 < (2::int) ^ (w - 1)" "setup_sketch True (power_on env) = Some fresh"
  shows "(\<forall>s. loop w u (Some ''STOP'') s =
              s\<lparr>paused := True, scanning := False,
                serial_out := serial_out s @ [Str ''SCAN_PAUSED'', Newline]\<rparr>)
       \<and> serial_out (loop w u (Some ''RESUME'') (loop w u (Some ''STOP'') fresh)) =
           serial_out fresh
           @ [Str ''SCAN_PAUSED'', Newline, Str ''SCAN_RESUMED'', Newline,
              Str ''Resuming: Moving to top position...'', Newline]
           @ layers_out env 200 99 0 0 100
           @ [Str ''SCAN_COMPLETE'', Newline]
       \<and> pin_log (loop w u (Some ''RESUME'') (loop w u (Some ''STOP'') fresh)) =
           pin_log fresh
           @ DigitalWrite Z_DIR_PIN LOW # concat (replicate 100 (pulses Z_STEP_PIN 400))
           @ layers_pulses w 8 0 200 400 99 0 100
           @ DigitalWrite Z_DIR_PIN HIGH # concat (replicate 100 (pulses Z_STEP_PIN 400))
           @ [DigitalWrite Z_DIR_PIN LOW]"
proof -
  note f = setup_fields[OF assms(2)]
  note wi = wide_int[OF assms(1)]
  have stop: "loop w u (Some ''STOP'') s =
              s\<lparr>paused := True, scanning := False,
                serial_out := serial_out s @ [Str ''SCAN_PAUSED'', Newline]\<rparr>" for s
    by (simp add: loop_STOP serial_println_def)
  define s1 where "s1 = serial_println (Str ''SCAN_RESUMED'')
     ((loop w u (Some ''STOP'') fresh)\<lparr>paused := False, scanning := True\<rparr>)"
  have g: "scanning s1" "\<not> paused s1" "paused_layer s1 = 0" "paused_step s1 = 0"
    by (simp_all add: s1_def stop serial_println_def f)
  have c: "theta_steps_per_rev s1 = 200" "z_steps_per_mm s1 = 200" "z_travel_mm s1 = 200"
    "z_steps_per_layer s1 = 400" "steps_per_rev s1 = 1600" "sensor_env s1 = env"
    "sensor_reads s1 = 0"
    "serial_out s1 = serial_out fresh @ [Str ''SCAN_PAUSED'', Newline, Str ''SCAN_RESUMED'', Newline]"
    "pin_log s1 = pin_log fresh"
    by (simp_all add: s1_def stop serial_println_def f)
  have t: "totalZSteps w s1 = 100"
    by (simp add: totalZSteps_def c c_div_def c_mul_def wi)
  have l: "scan_last w s1 = 99"
    by (simp add: scan_last_def t c_sub_def wi)
  have p: "steps_per_point_of w s1 = 8" "remainder_of s1 = 0"
    by (simp_all add: steps_per_point_of_def remainder_of_def c c_div_def c_mod_def wi)
  have r: "loop w u (Some ''RESUME'') (loop w u (Some ''STOP'') fresh) =
           (serial_println (Str ''SCAN_COMPLETE'') (resumeScan w s1))\<lparr>scanning := False\<rparr>"
    unfolding loop_RESUME Let_def s1_def[symmetric]
    by (simp add: stop resumeScan_eq[OF g] g)
  show ?thesis
    unfolding r
    by (simp add: stop resumeScan_eq[OF g] serial_println_def t l p c z_travel_pulses_def)
qed


lemma full_scan_on_32bit:
  "40000 < (2::int) ^ (32 - 1)
   \<and> setup_sketch True (power_on example_env) = Some example_ready
   \<and> serial_out (loop 32 (\<lambda>i. 0) (Some ''RESUME'') (loop 32 (\<lambda>i. 0) (Some ''STOP'') example_ready)) =
       serial_out example_ready
       @ [Str ''SCAN_PAUSED'', Newline, Str ''SCAN_RESUMED'', Newline,
          Str ''Resuming: Moving to top position...'', Newline]
       @ layers_out example_env 200 99 0 0 100
       @ [Str ''SCAN_COMPLETE'', Newline]"
proof -
  have h1: "40000 < (2::int) ^ (32 - 1)" by simp
  have h2: "setup_sketch True (power_on example_env) = Some example_ready"
    by (simp add: example_ready_def setup_sketch_def initVL53L0X_def)
  show ?thesis
    using full_scan_on_wide_int[OF h1 h2, of "\<lambda>i. 0", THEN conjunct2, THEN conjunct1] h2
    by simp
qed

text \<open>
  Claim C10 (STOP without a scan). The claim: STOP always sets \<open>paused\<close>, clears
  \<open>scanning\<close> and prints SCAN_PAUSED, even when no scan is in progress; so on freshly
  started firmware STOP followed by RESUME prints SCAN_RESUMED and runs the full scan
  from layer 0, step 0, beginning with the move to the top. The first half holds in
  every state, for every width of \<^verbatim>\<open>int\<close>. The second half fails with the 16-bit
  \<^verbatim>\<open>int\<close> of the boards the repository names: \<^verbatim>\<open>resumeScan\<close> computes
  \<^verbatim>\<open>zLayers = (z_travel_mm * z_steps_per_mm) / z_steps_per_layer\<close> in \<^verbatim>\<open>int\<close>, the
  product 200 * 200 of the defaults wraps to -25536, and \<^verbatim>\<open>zLayers\<close> is -63. The loops
  of \<^verbatim>\<open>moveToTop\<close>, \<^verbatim>\<open>resumeScan\<close> and \<^verbatim>\<open>returnToHome\<close> do not run once: the line
  "Resuming: Moving to top position..." is followed by SCAN_COMPLETE, with no point
  printed, no STEP pulse made and the sensor never polled. (\<^verbatim>\<open>performScanStep\<close>
  replaces a \<^verbatim>\<open>zLayers\<close> that is not positive by 1000; \<^verbatim>\<open>resumeScan\<close> has no such
  test.)
\<close>

theorem stop_then_resume_16bit:
  "(\<forall>s. loop w u (Some ''STOP'') s =
          s\<lparr>paused := True, scanning := False,
            serial_out := serial_out s @ [Str ''SCAN_PAUSED'', Newline]\<rparr>)
   \<and> c_mul 16 (z_travel_mm example_ready) (z_steps_per_mm example_ready) = - 25536
   \<and> totalZSteps 16 example_ready = - 63
   \<and> serial_out (loop 16 (\<lambda>i. 0) (Some ''RESUME'')
        (loop 16 (\<lambda>i. 0) (Some ''STOP'') example_ready)) =
     serial_out example_ready
     @ [Str ''SCAN_PAUSED'', Newline, Str ''SCAN_RESUMED'', Newline,
        Str ''Resuming: Moving to top position...'', Newline, Str ''SCAN_COMPLETE'', Newline]
   \<and> pin_log (loop 16 (\<lambda>i. 0) (Some ''RESUME'')
        (loop 16 (\<lambda>i. 0) (Some ''STOP'') example_ready)) =
     pin_log example_ready
     @ [DigitalWrite Z_DIR_PIN LOW, DigitalWrite Z_DIR_PIN HIGH, DigitalWrite Z_DIR_PIN LOW]
   \<and> sensor_reads (loop 16 (\<lambda>i. 0) (Some ''RESUME'')
        (loop 16 (\<lambda>i. 0) (Some ''STOP'') example_ready)) = 0"
proof -
  have stop: "loop w u (Some ''STOP'') s =
          s\<lparr>paused := True, scanning := False,
            serial_out := serial_out s @ [Str ''SCAN_PAUSED'', Newline]\<rparr>" for s
    by (simp add: loop_STOP serial_println_def)
  have m: "c_mul 16 (z_travel_mm example_ready) (z_steps_per_mm example_ready) = - 25536"
    unfolding example_ready_eq by (simp add: int_eval)
  have z: "totalZSteps 16 example_ready = - 63"
    unfolding example_ready_eq by (simp add: totalZSteps_def int_eval)
  have r: "serial_out (loop 16 (\<lambda>i. 0) (Some ''RESUME'')
        (loop 16 (\<lambda>i. 0) (Some ''STOP'') example_ready)) =
     serial_out example_ready
     @ [Str ''SCAN_PAUSED'', Newline, Str ''SCAN_RESUMED'', Newline,
        Str ''Resuming: Moving to top position...'', Newline, Str ''SCAN_COMPLETE'', Newline]
   \<and> pin_log (loop 16 (\<lambda>i. 0) (Some ''RESUME'')
        (loop 16 (\<lambda>i. 0) (Some ''STOP'') example_ready)) =
     pin_log example_ready
     @ [DigitalWrite Z_DIR_PIN LOW, DigitalWrite Z_DIR_PIN HIGH, DigitalWrite Z_DIR_PIN LOW]
   \<and> sensor_reads (loop 16 (\<lambda>i. 0) (Some ''RESUME'')
        (loop 16 (\<lambda>i. 0) (Some ''STOP'') example_ready)) = 0"
    unfolding loop_STOP loop_RESUME example_ready_eq
    by (simp add: Let_def serial_println_def resumeScan_eq scan_eval int_eval ready_out_def
          ready_pins_def example_ready_eq[symmetric])
  from stop m z r show ?thesis by blast
qed

theorem stop_then_resume_16bit_witness:
  "totalZSteps 16 example_ready < 0
   \<and> sensor_reads (loop 16 (\<lambda>i. 0) (Some ''RESUME'')
        (loop 16 (\<lambda>i. 0) (Some ''STOP'') example_ready)) = 0
   \<and> paused (loop 16 (\<lambda>i. 0) (Some ''STOP'') example_ready)"
proof -
  note t = stop_then_resume_16bit[where w = 16 and u = "\<lambda>i. 0"]
  from t have a: "totalZSteps 16 example_ready = - 63"
    by (rule conjunct2[THEN conjunct2, THEN conjunct1])
  from t have b: "sensor_reads (loop 16 (\<lambda>i. 0) (Some ''RESUME'')
        (loop 16 (\<lambda>i. 0) (Some ''STOP'') example_ready)) = 0"
    by blast
  from t have c: "loop 16 (\<lambda>i. 0) (Some ''STOP'') example_ready =
          example_ready\<lparr>paused := True, scanning := False,
            serial_out := serial_out example_ready @ [Str ''SCAN_PAUSED'', Newline]\<rparr>"
    by blast
  show ?thesis using a b by (simp add: c)
qed

section \<open>Motor motion\<close>

text \<open>The writes to the two STEP pins among a list of pin events.\<close>

fun is_step_write :: "hw_event \<Rightarrow> bool" where
  "is_step_write (DigitalWrite p v) = (p = X_STEP_PIN \<or> p = Z_STEP_PIN)"
| "is_step_write (PinMode p) = False"

definition step_writes :: "hw_event list \<Rightarrow> hw_event list" where
  "step_writes es = filter is_step_write es"

text \<open>A list of STEP writes that consists of whole pulses: LOW then HIGH on the same pin.\<close>

fun pulse_train :: "hw_event list \<Rightarrow> bool" where
  "pulse_train [] = True"
| "pulse_train (DigitalWrite p v # DigitalWrite q u # es) =
     (p = q \<and> \<not> v \<and> u \<and> pulse_train es)"
| "pulse_train es = False"

definition only_pulses :: "hw_event list \<Rightarrow> bool" where
  "only_pulses es = pulse_train (step_writes es)"

lemma pulse_train_append: "pulse_train a \<Longrightarrow> pulse_train b \<Longrightarrow> pulse_train (a @ b)"
  by (induction a rule: pulse_train.induct) simp_all

lemma only_pulses_Nil: "only_pulses []"
  by (simp add: only_pulses_def step_writes_def)

lemma only_pulses_append: "only_pulses a \<Longrightarrow> only_pulses b \<Longrightarrow> only_pulses (a @ b)"
  by (simp add: only_pulses_def step_writes_def pulse_train_append)

lemma only_pulses_other:
  "p \<noteq> X_STEP_PIN \<Longrightarrow> p \<noteq> Z_STEP_PIN \<Longrightarrow> only_pulses (DigitalWrite p v # es) = only_pulses es"
  by (simp add: only_pulses_def step_writes_def)

lemma only_pulses_pulses:
  "p = X_STEP_PIN \<or> p = Z_STEP_PIN \<Longrightarrow> only_pulses (pulses p n)"
  by (induction n) (auto simp: pulses_0 pulses_Suc only_pulses_def step_writes_def)

lemma only_pulses_concat: "(\<And>x. x \<in> set xs \<Longrightarrow> only_pulses x) \<Longrightarrow> only_pulses (concat xs)"
  by (induction xs) (simp_all add: only_pulses_Nil only_pulses_append)

lemma only_pulses_z_travel: "only_pulses (z_travel_pulses w s)"
  unfolding z_travel_pulses_def
  by (rule only_pulses_concat) (auto simp: only_pulses_pulses)

lemma only_pulses_layer_down: "only_pulses (layer_down z)"
  unfolding layer_down_def
  by (simp add: only_pulses_other only_pulses_append only_pulses_pulses only_pulses_Nil)

lemma only_pulses_row: "only_pulses (row_pulses w spp rem step n)"
  unfolding row_pulses_def
  by (rule only_pulses_concat) (auto simp: only_pulses_pulses)

lemma only_pulses_layers: "only_pulses (layers_pulses w spp rem theta zspl bound layer m)"
  unfolding layers_pulses_def
  by (rule only_pulses_concat)
     (auto simp: only_pulses_row only_pulses_layer_down only_pulses_append only_pulses_Nil)

definition extends_by_pulses :: "hw_event list \<Rightarrow> hw_event list \<Rightarrow> bool" where
  "extends_by_pulses l l' = (\<exists>es. l' = l @ es \<and> only_pulses es)"

lemma extends_refl: "extends_by_pulses l l"
  by (simp add: extends_by_pulses_def only_pulses_Nil)

lemma extends_append: "only_pulses es \<Longrightarrow> extends_by_pulses l (l @ es)"
  by (auto simp: extends_by_pulses_def)


lemmas only_pulses_simps = only_pulses_Nil only_pulses_append only_pulses_other
  only_pulses_pulses only_pulses_z_travel only_pulses_layer_down only_pulses_row
  only_pulses_layers

lemma extends_performScanStep:
  "extends_by_pulses (pin_log s) (pin_log (performScanStep w s))"
proof -
  have "\<exists>es. pin_log (performScanStep w s) = pin_log s @ es \<and> only_pulses es"
    by (simp add: performScanStep_def Let_def rotateMotorX_eq rotateMotorZ_eq digitalWrite_def
          serial_println_def sensor_poll_def print_point_eq only_pulses_simps)
  then show ?thesis by (simp add: extends_by_pulses_def)
qed

lemma pin_log_processConfigCommand: "pin_log (processConfigCommand w u c s) = pin_log s"
  by (simp add: processConfigCommand_def config_error_range_def config_error_exceed_def
        config_ok_message_def serial_print_def serial_println_def serial_newline_def
        split: prod.splits)

lemma extends_resume:
  assumes "state_ok w s"
  shows "extends_by_pulses (pin_log s)
     (pin_log (let s1 = serial_println (Str ''SCAN_RESUMED'') (s\<lparr>paused := False, scanning := True\<rparr>);
           s2 = resumeScan w s1;
           s3 = (if \<not> paused s2 then serial_println (Str ''SCAN_COMPLETE'') s2 else s2)
       in s3\<lparr>scanning := False\<rparr>))"
proof -
  define s1 where
    "s1 = serial_println (Str ''SCAN_RESUMED'') (s\<lparr>paused := False, scanning := True\<rparr>)"
  have f: "scanning s1" "\<not> paused s1" "paused_layer s1 = 0" "paused_step s1 = 0"
    using assms by (simp_all add: s1_def serial_println_def state_ok_def)
  have p: "pin_log s1 = pin_log s"
    by (simp add: s1_def serial_println_def)
  have "\<exists>es. pin_log (resumeScan w s1) = pin_log s @ es \<and> only_pulses es"
    unfolding resumeScan_eq[OF f]
    by (simp add: p only_pulses_simps)
  then show ?thesis
    unfolding Let_def s1_def[symmetric]
    by (simp add: extends_by_pulses_def serial_println_def)
qed

lemma extends_prims:
  "only_pulses es \<Longrightarrow> extends_by_pulses l (l @ es)"
  "p \<noteq> X_STEP_PIN \<Longrightarrow> p \<noteq> Z_STEP_PIN \<Longrightarrow> extends_by_pulses l (l @ [DigitalWrite p v])"
  "p \<noteq> X_STEP_PIN \<Longrightarrow> p \<noteq> Z_STEP_PIN \<Longrightarrow> only_pulses es \<Longrightarrow>
     extends_by_pulses l (l @ DigitalWrite p v # es)"
  by (auto simp: extends_by_pulses_def only_pulses_simps)

lemma loop_extends:
  assumes "state_ok w s"
  shows "extends_by_pulses (pin_log s) (pin_log (loop w u input s))"
proof (cases input)
  case None
  then show ?thesis by (simp add: loop_def extends_refl)
next
  case (Some line)
  have rs: "extends_by_pulses (pin_log s)
     (pin_log (let s1 = serial_println (Str ''SCAN_RESUMED'') (s\<lparr>paused := False, scanning := True\<rparr>);
           s2 = resumeScan w s1;
           s3 = (if \<not> paused s2 then serial_println (Str ''SCAN_COMPLETE'') s2 else s2)
       in s3\<lparr>scanning := False\<rparr>))"
    using assms by (rule extends_resume)
  show ?thesis
    unfolding loop_def Some option.case
    using rs
    by (simp add: Let_def extends_performScanStep pin_log_processConfigCommand extends_refl
          extends_prims only_pulses_simps start_scan_def get_config_def serial_print_def
          serial_println_def serial_newline_def digitalWrite_def rotateMotorX_eq
          rotateMotorZ_eq moveToTop_eq returnToHome_eq sensor_poll_def)
qed

text \<open>
  Claim C6 (direct pulse generation). For every \<open>n \<ge> 0\<close>, \<^verbatim>\<open>rotateMotorX(n)\<close> and
  \<^verbatim>\<open>rotateMotorZ(n)\<close> append exactly \<open>n\<close> LOW-then-HIGH pairs on their STEP pin to
  the pin events and change nothing else. In every round of \<open>loop\<close> from a reachable
  state, scanning included, the writes to the STEP pins are such pulses and nothing
  else: all motor motion is made of these \<^verbatim>\<open>digitalWrite\<close> pulses.
\<close>

theorem direct_pulse_generation:
  assumes "0 \<le> n" "state_ok w s'"
  shows "rotateMotorX n s = s\<lparr>pin_log := pin_log s @ pulses X_STEP_PIN (nat n)\<rparr>
       \<and> rotateMotorZ n s = s\<lparr>pin_log := pin_log s @ pulses Z_STEP_PIN (nat n)\<rparr>
       \<and> pulses X_STEP_PIN (nat n) =
           concat (replicate (nat n) [DigitalWrite X_STEP_PIN LOW, DigitalWrite X_STEP_PIN HIGH])
       \<and> pulses Z_STEP_PIN (nat n) =
           concat (replicate (nat n) [DigitalWrite Z_STEP_PIN LOW, DigitalWrite Z_STEP_PIN HIGH])
       \<and> extends_by_pulses (pin_log s') (pin_log (loop w u input s'))"
  using assms(2)
  by (simp add: rotateMotorX_eq rotateMotorZ_eq pulses_def loop_extends)

theorem direct_pulse_generation_witness:
  "(0::int) \<le> 2 \<and> state_ok 16 example_scanning
   \<and> pin_log (rotateMotorZ 2 (power_on example_env)) =
       [DigitalWrite Z_STEP_PIN LOW, DigitalWrite Z_STEP_PIN HIGH,
        DigitalWrite Z_STEP_PIN LOW, DigitalWrite Z_STEP_PIN HIGH]
   \<and> extends_by_pulses (pin_log example_scanning)
        (pin_log (loop 16 (\<lambda>i. 0) (Some ''SCAN_STEP'') example_scanning))"
proof -
  have h: "state_ok 16 example_scanning"
    by (simp add: example_scanning_def state_ok_start_scan state_ok_power_on)
  have z: "(0::int) \<le> 2" by simp
  show ?thesis
    using direct_pulse_generation[OF z h, of "power_on example_env" "\<lambda>i. 0" "Some ''SCAN_STEP''"] h
    by (simp add: power_on_def pulses_def numeral_2_eq_2)
qed

end
